theory Spec2Isabelle
  imports Complex_Main
begin

section \<open>The parameter mapper of \<^verbatim>\<open>AudioEngine.js\<close>\<close>

text \<open>
  JavaScript numbers are IEEE doubles. For the values the engine hands to the audio
  graph the finite ones are modelled as exact reals (no rounding, no overflow). The
  three special values are added in the type \<open>jsnum\<close> further down, and the rounding
  and the overflow of every operation in \<open>scale_ieee\<close>, for the properties of the
  mapper that depend on them.

  \<^verbatim>\<open>
  function clamp(v, min, max) { return Math.max(min, Math.min(max, v)); }
  function scale(v, inMin, inMax, outMin, outMax) {
    const t = (clamp(v, inMin, inMax) - inMin) / (inMax - inMin || 1);
    return outMin + t * (outMax - outMin);
  }
  function dbToGain(db) { return Math.pow(10, db / 20); }
  \<close>
\<close>

definition clamp :: "real \<Rightarrow> real \<Rightarrow> real \<Rightarrow> real" where
  "clamp v mn mx = max mn (min mx v)"

text \<open>The operator \<^verbatim>\<open>a || b\<close> on finite numbers: zero is the only falsy one.\<close>

definition js_or :: "real \<Rightarrow> real \<Rightarrow> real" where
  "js_or a b = (if a = 0 then b else a)"

definition scale :: "real \<Rightarrow> real \<Rightarrow> real \<Rightarrow> real \<Rightarrow> real \<Rightarrow> real" where
  "scale v inMin inMax outMin outMax =
     (let t = (clamp v inMin inMax - inMin) / js_or (inMax - inMin) 1
      in outMin + t * (outMax - outMin))"

text \<open>The interpolation factor \<^verbatim>\<open>t\<close> of \<open>scale\<close>, named for the proofs.\<close>

definition factor :: "real \<Rightarrow> real \<Rightarrow> real \<Rightarrow> real" where
  "factor v inMin inMax = (clamp v inMin inMax - inMin) / js_or (inMax - inMin) 1"

definition dbToGain :: "real \<Rightarrow> real" where
  "dbToGain db = 10 powr (db / 20)"

subsection \<open>Numbers with NaN and the infinities\<close>

text \<open>
  \<open>clamp\<close> and \<open>scale\<close> on all JavaScript numbers. Arithmetic follows IEEE 754 on the
  special values; finite results are exact, and the sign of zero is not tracked (a zero
  divisor counts as positive zero).
\<close>

datatype jsnum = Num real | PosInf | NegInf | NaN

fun js_less :: "jsnum \<Rightarrow> jsnum \<Rightarrow> bool" where
  "js_less (Num a) (Num b) = (a < b)"
| "js_less NegInf (Num b) = True"
| "js_less NegInf PosInf = True"
| "js_less (Num a) PosInf = True"
| "js_less _ _ = False"

text \<open>\<^verbatim>\<open>Math.min\<close> and \<^verbatim>\<open>Math.max\<close> return NaN as soon as one argument is NaN.\<close>

fun Math_min :: "jsnum \<Rightarrow> jsnum \<Rightarrow> jsnum" where
  "Math_min NaN _ = NaN"
| "Math_min _ NaN = NaN"
| "Math_min a b = (if js_less b a then b else a)"

fun Math_max :: "jsnum \<Rightarrow> jsnum \<Rightarrow> jsnum" where
  "Math_max NaN _ = NaN"
| "Math_max _ NaN = NaN"
| "Math_max a b = (if js_less a b then b else a)"

fun js_neg :: "jsnum \<Rightarrow> jsnum" where
  "js_neg (Num a) = Num (- a)"
| "js_neg PosInf = NegInf"
| "js_neg NegInf = PosInf"
| "js_neg NaN = NaN"

fun js_add :: "jsnum \<Rightarrow> jsnum \<Rightarrow> jsnum" where
  "js_add (Num a) (Num b) = Num (a + b)"
| "js_add NaN _ = NaN"
| "js_add _ NaN = NaN"
| "js_add PosInf NegInf = NaN"
| "js_add NegInf PosInf = NaN"
| "js_add PosInf _ = PosInf"
| "js_add NegInf _ = NegInf"
| "js_add _ PosInf = PosInf"
| "js_add _ NegInf = NegInf"

definition js_sub :: "jsnum \<Rightarrow> jsnum \<Rightarrow> jsnum" where
  "js_sub a b = js_add a (js_neg b)"

text \<open>The sign of a number that is not NaN: \<open>-1\<close>, \<open>0\<close> or \<open>1\<close>.\<close>

fun js_sign :: "jsnum \<Rightarrow> real" where
  "js_sign (Num a) = sgn a"
| "js_sign PosInf = 1"
| "js_sign NegInf = - 1"
| "js_sign NaN = 0"

definition signed_inf :: "real \<Rightarrow> jsnum" where
  "signed_inf s = (if s = 0 then NaN else if 0 < s then PosInf else NegInf)"

fun js_mul :: "jsnum \<Rightarrow> jsnum \<Rightarrow> jsnum" where
  "js_mul (Num a) (Num b) = Num (a * b)"
| "js_mul NaN _ = NaN"
| "js_mul _ NaN = NaN"
| "js_mul a b = signed_inf (js_sign a * js_sign b)"

fun js_div :: "jsnum \<Rightarrow> jsnum \<Rightarrow> jsnum" where
  "js_div (Num a) (Num b) = (if b = 0 then signed_inf (sgn a) else Num (a / b))"
| "js_div NaN _ = NaN"
| "js_div _ NaN = NaN"
| "js_div (Num a) _ = Num 0"
| "js_div a (Num b) = signed_inf (js_sign a * (if b < 0 then - 1 else 1))"
| "js_div _ _ = NaN"

text \<open>\<^verbatim>\<open>a || b\<close> on numbers: zero and NaN are falsy.\<close>

fun js_or_num :: "jsnum \<Rightarrow> jsnum \<Rightarrow> jsnum" where
  "js_or_num (Num a) b = (if a = 0 then b else Num a)"
| "js_or_num NaN b = b"
| "js_or_num a _ = a"

definition clamp_num :: "jsnum \<Rightarrow> jsnum \<Rightarrow> jsnum \<Rightarrow> jsnum" where
  "clamp_num v mn mx = Math_max mn (Math_min mx v)"

definition scale_num :: "jsnum \<Rightarrow> jsnum \<Rightarrow> jsnum \<Rightarrow> jsnum \<Rightarrow> jsnum \<Rightarrow> jsnum" where
  "scale_num v inMin inMax outMin outMax =
     (let t = js_div (js_sub (clamp_num v inMin inMax) inMin)
                     (js_or_num (js_sub inMax inMin) (Num 1))
      in js_add outMin (js_mul t (js_sub outMax outMin)))"

text \<open>
  The value of \<open>[0, 100]\<close> nearest to a number that is not NaN.
\<close>

fun nearest_in_range :: "jsnum \<Rightarrow> real" where
  "nearest_in_range (Num a) = (if a < 0 then 0 else if 100 < a then 100 else a)"
| "nearest_in_range PosInf = 100"
| "nearest_in_range NegInf = 0"
| "nearest_in_range NaN = 0"

subsection \<open>Doubles: rounding to nearest, ties to even\<close>

text \<open>
  The arithmetic of the source is that of IEEE 754 binary64: an operation returns the
  double nearest to the exact result, a tie goes to the even significand, and a result
  beyond the largest double becomes an infinity. \<open>round_double\<close> is that rounding on the
  reals: 53 significant bits for a normal number with exponent \<open>e\<close>, that is a multiple of
  \<open>2 powi (e - 52)\<close>, and the fixed spacing \<open>2 powi (- 1074)\<close> below \<open>2 powi (- 1022)\<close>.
  \<open>to_double\<close> adds the overflow. The sign of zero is not tracked.
\<close>

definition round_half_even :: "real \<Rightarrow> int" where
  "round_half_even y =
     (let f = \<lfloor>y\<rfloor>; r = y - of_int f
      in if r < 1 / 2 then f else if 1 / 2 < r then f + 1 else if even f then f else f + 1)"

definition exponent :: "real \<Rightarrow> int" where
  "exponent x = (if x = 0 then - 1022 else max (- 1022) \<lfloor>log 2 \<bar>x\<bar>\<rfloor>)"

definition ulp :: "real \<Rightarrow> real" where
  "ulp x = 2 powi (exponent x - 52)"

definition round_double :: "real \<Rightarrow> real" where
  "round_double x = of_int (round_half_even (x / ulp x)) * ulp x"

text \<open>\<^verbatim>\<open>Number.MAX_VALUE\<close>, the largest double.\<close>

definition max_double :: real where
  "max_double = (2 ^ 53 - 1) * 2 ^ 971"

definition to_double :: "real \<Rightarrow> jsnum" where
  "to_double x =
     (let r = round_double x
      in if max_double < r then PosInf else if r < - max_double then NegInf else Num r)"

text \<open>The reals that are doubles.\<close>

definition is_double :: "real \<Rightarrow> bool" where
  "is_double x = (round_double x = x \<and> \<bar>x\<bar> \<le> max_double)"

text \<open>
  The four operations: the exact result of the previous subsection, rounded when it is
  finite.
\<close>

fun rounded :: "jsnum \<Rightarrow> jsnum" where
  "rounded (Num r) = to_double r"
| "rounded x = x"

definition ieee_add :: "jsnum \<Rightarrow> jsnum \<Rightarrow> jsnum" where
  "ieee_add a b = rounded (js_add a b)"

definition ieee_sub :: "jsnum \<Rightarrow> jsnum \<Rightarrow> jsnum" where
  "ieee_sub a b = rounded (js_sub a b)"

definition ieee_mul :: "jsnum \<Rightarrow> jsnum \<Rightarrow> jsnum" where
  "ieee_mul a b = rounded (js_mul a b)"

definition ieee_div :: "jsnum \<Rightarrow> jsnum \<Rightarrow> jsnum" where
  "ieee_div a b = rounded (js_div a b)"

text \<open>
  \<open>scale\<close> as the source computes it: \<^verbatim>\<open>Math.min\<close>, \<^verbatim>\<open>Math.max\<close> and \<^verbatim>\<open>||\<close> select one of
  their arguments, the two subtractions, the division, the multiplication and the
  addition are rounded one by one.
\<close>

definition scale_ieee :: "jsnum \<Rightarrow> jsnum \<Rightarrow> jsnum \<Rightarrow> jsnum \<Rightarrow> jsnum \<Rightarrow> jsnum" where
  "scale_ieee v inMin inMax outMin outMax =
     (let t = ieee_div (ieee_sub (clamp_num v inMin inMax) inMin)
                       (js_or_num (ieee_sub inMax inMin) (Num 1))
      in ieee_add outMin (ieee_mul t (ieee_sub outMax outMin)))"

text \<open>\<^verbatim>\<open>Number.isFinite\<close> and the comparison \<^verbatim>\<open><=\<close>, which is false on NaN.\<close>

fun isFinite :: "jsnum \<Rightarrow> bool" where
  "isFinite (Num _) = True"
| "isFinite _ = False"


section \<open>The Web Audio objects the engine drives\<close>

text \<open>
  The browser's audio graph is modelled as a store: a context holds its nodes in creation
  order (a node is named by its index), the connections made so far, its clock and
  whether it has been closed. An \<^verbatim>\<open>AudioParam\<close> has its current value and its timeline
  of scheduled automation, kept in time order. Times are seconds of the audio clock.
\<close>

datatype automation =
    SetValueAtTime real real
  | LinearRampToValueAtTime real real
  | ExponentialRampToValueAtTime real real
  | SetTargetAtTime real real real

text \<open>The time of an event: the second argument of each scheduling method.\<close>

fun event_time :: "automation \<Rightarrow> real" where
  "event_time (SetValueAtTime v t) = t"
| "event_time (LinearRampToValueAtTime v t) = t"
| "event_time (ExponentialRampToValueAtTime v t) = t"
| "event_time (SetTargetAtTime v t k) = t"

record audio_param =
  pvalue :: real
  events :: "automation list"

text \<open>A new event goes after the events that are not later than it.\<close>

fun insert_event :: "automation \<Rightarrow> automation list \<Rightarrow> automation list" where
  "insert_event e [] = [e]"
| "insert_event e (x # xs) =
     (if event_time e < event_time x then e # x # xs else x # insert_event e xs)"

definition schedule :: "automation \<Rightarrow> audio_param \<Rightarrow> audio_param" where
  "schedule e p = p\<lparr>events := insert_event e (events p)\<rparr>"

text \<open>
  \<^verbatim>\<open>cancelScheduledValues(t)\<close> removes the events whose time is \<open>t\<close> or later, and
  keeps the earlier ones.
\<close>

definition cancelScheduledValues :: "real \<Rightarrow> audio_param \<Rightarrow> audio_param" where
  "cancelScheduledValues t p = p\<lparr>events := filter (\<lambda>e. event_time e < t) (events p)\<rparr>"

datatype node_kind =
    GainNode | DelayNode | BiquadFilterNode | OscillatorNode | DynamicsCompressorNode
  | WaveShaperNode | AudioBufferSourceNode | AudioDestinationNode

record float_array =
  size_of :: nat
  sample :: "nat \<Rightarrow> real"

record audio_buffer =
  numberOfChannels :: nat
  bufferRate :: nat
  channel0 :: float_array

record audio_node =
  kind :: node_kind
  ntype :: string
  params :: "(string \<times> audio_param) list"
  maxDelayTime :: real
  curve :: "float_array option"
  buffer :: "audio_buffer option"
  started :: "real option"
  stopped :: "real option"

datatype dest = ToNode nat | ToParam nat string

record audio_ctx =
  nodes :: "audio_node list"
  connections :: "(nat \<times> dest) list"
  currentTime :: real
  sampleRate :: nat
  closed :: bool

datatype error = InvalidStateError | TypeError

text \<open>
  What a statement does: it finishes with a result, or it throws and leaves the state as
  it was at the throw.
\<close>

datatype ('a, 's) outcome = Normal 'a 's | Thrown error 's

text \<open>Statements in sequence: the first throw ends the sequence.\<close>

fun run_all :: "('s \<Rightarrow> (unit, 's) outcome) list \<Rightarrow> 's \<Rightarrow> (unit, 's) outcome" where
  "run_all [] s = Normal () s"
| "run_all (f # fs) s = (case f s of Normal u s' \<Rightarrow> run_all fs s' | Thrown e s' \<Rightarrow> Thrown e s')"

text \<open>\<^verbatim>\<open>try { ... } catch {}\<close>: the state goes on, thrown or not.\<close>

fun swallow :: "('a, 's) outcome \<Rightarrow> 's" where
  "swallow (Normal u s) = s"
| "swallow (Thrown e s) = s"

definition param0 :: "real \<Rightarrow> audio_param" where
  "param0 v = \<lparr>pvalue = v, events = []\<rparr>"

text \<open>A node as the factory methods make it, with the default values of the Web Audio API.\<close>

fun default_type :: "node_kind \<Rightarrow> string" where
  "default_type BiquadFilterNode = ''lowpass''"
| "default_type OscillatorNode = ''sine''"
| "default_type _ = []"

fun default_params :: "node_kind \<Rightarrow> (string \<times> audio_param) list" where
  "default_params GainNode = [(''gain'', param0 1)]"
| "default_params DelayNode = [(''delayTime'', param0 0)]"
| "default_params BiquadFilterNode =
     [(''frequency'', param0 350), (''detune'', param0 0), (''Q'', param0 1), (''gain'', param0 0)]"
| "default_params OscillatorNode = [(''frequency'', param0 440), (''detune'', param0 0)]"
| "default_params DynamicsCompressorNode =
     [(''threshold'', param0 (- 24)), (''knee'', param0 30), (''ratio'', param0 12),
      (''attack'', param0 0.003), (''release'', param0 0.25)]"
| "default_params AudioBufferSourceNode = [(''playbackRate'', param0 1), (''detune'', param0 0)]"
| "default_params _ = []"

definition new_node :: "node_kind \<Rightarrow> audio_node" where
  "new_node k = \<lparr>kind = k, ntype = default_type k, params = default_params k,
     maxDelayTime = (if k = DelayNode then 1 else 0), curve = None, buffer = None,
     started = None, stopped = None\<rparr>"

text \<open>\<^verbatim>\<open>new AudioContext()\<close>: only the destination node, the clock at zero.\<close>

definition new_ctx :: "nat \<Rightarrow> audio_ctx" where
  "new_ctx rate = \<lparr>nodes = [new_node AudioDestinationNode], connections = [],
     currentTime = 0, sampleRate = rate, closed = False\<rparr>"

definition destination :: nat where
  "destination = 0"

definition create :: "node_kind \<Rightarrow> audio_ctx \<Rightarrow> nat \<times> audio_ctx" where
  "create k c = (length (nodes c), c\<lparr>nodes := nodes c @ [new_node k]\<rparr>)"

definition createDelay :: "real \<Rightarrow> audio_ctx \<Rightarrow> nat \<times> audio_ctx" where
  "createDelay mx c =
     (length (nodes c), c\<lparr>nodes := nodes c @ [(new_node DelayNode)\<lparr>maxDelayTime := mx\<rparr>]\<rparr>)"

text \<open>\<^verbatim>\<open>xs.map(f)\<close> where \<^verbatim>\<open>f\<close> creates a node: the nodes are created in order.\<close>

fun create_each :: "(audio_ctx \<Rightarrow> nat \<times> audio_ctx) list \<Rightarrow> audio_ctx \<Rightarrow> nat list \<times> audio_ctx" where
  "create_each [] c = ([], c)"
| "create_each (f # fs) c =
     (let (i, c1) = f c; (is, c2) = create_each fs c1 in (i # is, c2))"

definition map_node :: "nat \<Rightarrow> (audio_node \<Rightarrow> audio_node) \<Rightarrow> audio_ctx \<Rightarrow> audio_ctx" where
  "map_node i f c = c\<lparr>nodes := (nodes c)[i := f (nodes c ! i)]\<rparr>"

fun map_entry :: "string \<Rightarrow> (audio_param \<Rightarrow> audio_param) \<Rightarrow>
    (string \<times> audio_param) list \<Rightarrow> (string \<times> audio_param) list" where
  "map_entry name f [] = []"
| "map_entry name f ((k, p) # ps) =
     (if k = name then (k, f p) # map_entry name f ps else (k, p) # map_entry name f ps)"

definition map_param :: "nat \<Rightarrow> string \<Rightarrow> (audio_param \<Rightarrow> audio_param) \<Rightarrow> audio_ctx \<Rightarrow> audio_ctx" where
  "map_param i name f c = map_node i (\<lambda>n. n\<lparr>params := map_entry name f (params n)\<rparr>) c"

definition param_of :: "audio_ctx \<Rightarrow> nat \<Rightarrow> string \<Rightarrow> audio_param option" where
  "param_of c i name = (if i < length (nodes c) then map_of (params (nodes c ! i)) name else None)"

text \<open>\<^verbatim>\<open>node.param.value = v\<close>, \<^verbatim>\<open>node.type = s\<close>, \<^verbatim>\<open>a.connect(b)\<close>.\<close>

definition set_value :: "nat \<Rightarrow> string \<Rightarrow> real \<Rightarrow> audio_ctx \<Rightarrow> audio_ctx" where
  "set_value i name v c = map_param i name (\<lambda>p. p\<lparr>pvalue := v\<rparr>) c"

definition set_type :: "nat \<Rightarrow> string \<Rightarrow> audio_ctx \<Rightarrow> audio_ctx" where
  "set_type i s c = map_node i (\<lambda>n. n\<lparr>ntype := s\<rparr>) c"

definition connect :: "nat \<Rightarrow> dest \<Rightarrow> audio_ctx \<Rightarrow> audio_ctx" where
  "connect a d c = c\<lparr>connections := connections c @ [(a, d)]\<rparr>"

text \<open>
  \<^verbatim>\<open>start(when)\<close> throws on a source that was started before, \<^verbatim>\<open>stop(when)\<close> on one that
  was never started; \<^verbatim>\<open>close()\<close> fails on a closed context.
\<close>

definition node_start :: "nat \<Rightarrow> real \<Rightarrow> audio_ctx \<Rightarrow> (unit, audio_ctx) outcome" where
  "node_start i when c =
     (if started (nodes c ! i) \<noteq> None then Thrown InvalidStateError c
      else Normal () (map_node i (\<lambda>n. n\<lparr>started := Some when\<rparr>) c))"

definition node_stop :: "nat \<Rightarrow> real \<Rightarrow> audio_ctx \<Rightarrow> (unit, audio_ctx) outcome" where
  "node_stop i when c =
     (if started (nodes c ! i) = None then Thrown InvalidStateError c
      else Normal () (map_node i (\<lambda>n. n\<lparr>stopped := Some when\<rparr>) c))"

definition ctx_close :: "audio_ctx \<Rightarrow> (unit, audio_ctx) outcome" where
  "ctx_close c = (if closed c then Thrown InvalidStateError c else Normal () (c\<lparr>closed := True\<rparr>))"

text \<open>
  The scheduling methods of a node's parameter. The browser's methods throw on a negative
  time and on a value that is not finite; the engine passes the context's clock and
  finite values, and these errors are not part of the model.
\<close>

definition automate :: "nat \<Rightarrow> string \<Rightarrow> automation \<Rightarrow> audio_ctx \<Rightarrow> audio_ctx" where
  "automate i name e c = map_param i name (schedule e) c"

definition cancel :: "nat \<Rightarrow> string \<Rightarrow> real \<Rightarrow> audio_ctx \<Rightarrow> audio_ctx" where
  "cancel i name t c = map_param i name (cancelScheduledValues t) c"

text \<open>
  \<^verbatim>\<open>Math.random()\<close>: the browser's generator is a stream of draws the model does not
  choose; each call takes the next draw and returns its low 53 bits as a fraction, a
  number of \<open>[0, 1)\<close>.
\<close>

record rng =
  draws :: "nat \<Rightarrow> nat"
  used :: nat

definition unit_draw :: "rng \<Rightarrow> nat \<Rightarrow> real" where
  "unit_draw r k = real (draws r k mod 2 ^ 53) / 2 ^ 53"

definition Math_random :: "rng \<Rightarrow> real \<times> rng" where
  "Math_random r = (unit_draw r (used r), r\<lparr>used := Suc (used r)\<rparr>)"

section \<open>The reverb and the four layers\<close>

subsection \<open>\<^verbatim>\<open>createSimpleReverb\<close>\<close>

record reverb_bus =
  rv_input :: nat
  rv_output :: nat

text \<open>The array literal \<^verbatim>\<open>[0.011, 0.017, 0.019, 0.029]\<close>, which the source writes out at each use.\<close>

definition delay_taps :: "real list" where
  "delay_taps = [0.011, 0.017, 0.019, 0.029]"

text \<open>The \<^verbatim>\<open>maxValue\<close> of a delay node's \<^verbatim>\<open>delayTime\<close> is the capacity it was created with.\<close>

definition delayTime_maxValue :: "audio_ctx \<Rightarrow> nat \<Rightarrow> real" where
  "delayTime_maxValue c d = maxDelayTime (nodes c ! d)"

definition createSimpleReverb :: "audio_ctx \<Rightarrow> reverb_bus \<times> audio_ctx" where
  "createSimpleReverb c0 =
     (let (input, c) = create GainNode c0;
          (output, c) = create GainNode c;
          (delays, c) = create_each (map (\<lambda>t. createDelay 0.25) delay_taps) c;
          c = fold (\<lambda>(i, d) c. set_value d ''delayTime''
                      (if delayTime_maxValue c (delays ! i) \<noteq> 0
                       then min 0.25 (delay_taps ! i) else delay_taps ! i) c)
                (enumerate 0 delays) c;
          (feedbacks, c) = create_each (map (\<lambda>d. create GainNode) delays) c;
          c = fold (\<lambda>g. set_value g ''gain'' 0.35) feedbacks c;
          (damp, c) = create BiquadFilterNode c;
          c = set_type damp ''lowpass'' c;
          c = set_value damp ''frequency'' 4500 c;
          c = connect input (ToNode (delays ! 0)) c;
          c = connect input (ToNode (delays ! 1)) c;
          c = connect input (ToNode (delays ! 2)) c;
          c = connect input (ToNode (delays ! 3)) c;
          c = fold (\<lambda>(i, d) c.
                      connect (feedbacks ! i) (ToNode d)
                        (connect d (ToNode (feedbacks ! i))
                          (connect d (ToNode damp) c)))
                (enumerate 0 delays) c;
          c = connect damp (ToNode output) c
      in (\<lparr>rv_input = input, rv_output = output\<rparr>, c))"

subsection \<open>\<^verbatim>\<open>createDrone\<close>\<close>

text \<open>
  The object \<^verbatim>\<open>{ start, stop, setTension }\<close> is three closures over the nodes and the
  flag \<^verbatim>\<open>running\<close>; the record holds what they close over. \<^verbatim>\<open>createDrone\<close> declares
  three parameters: a fourth argument at a call is dropped.
\<close>

record drone_layer =
  d_osc1 :: nat
  d_osc2 :: nat
  d_osc3 :: nat
  d_lfo :: nat
  d_lpf :: nat
  d_gain :: nat
  running :: bool

definition createDrone :: "audio_ctx \<Rightarrow> nat \<Rightarrow> nat \<Rightarrow> drone_layer \<times> audio_ctx" where
  "createDrone c0 reverbIn dry =
     (let root = 55;
          minorSecond = root * 2 powr (1 / 12);
          fifth = root * 2 powr (7 / 12);
          (osc1, c) = create OscillatorNode c0;
          c = set_type osc1 ''sawtooth'' c; c = set_value osc1 ''frequency'' root c;
          (osc2, c) = create OscillatorNode c;
          c = set_type osc2 ''triangle'' c; c = set_value osc2 ''frequency'' minorSecond c;
          (osc3, c) = create OscillatorNode c;
          c = set_type osc3 ''sawtooth'' c; c = set_value osc3 ''frequency'' fifth c;
          c = set_value osc1 ''detune'' (- 7) c;
          c = set_value osc2 ''detune'' 3 c;
          c = set_value osc3 ''detune'' 7 c;
          (lpf, c) = create BiquadFilterNode c;
          c = set_type lpf ''lowpass'' c; c = set_value lpf ''frequency'' 400 c;
          (lfo, c) = create OscillatorNode c;
          c = set_type lfo ''sine'' c; c = set_value lfo ''frequency'' 0.07 c;
          (lfoGain, c) = create GainNode c;
          c = set_value lfoGain ''gain'' 220 c;
          c = connect lfo (ToNode lfoGain) c;
          c = connect lfoGain (ToParam lpf ''frequency'') c;
          (gain, c) = create GainNode c;
          c = set_value gain ''gain'' 0.14 c;
          c = connect osc1 (ToNode lpf) c;
          c = connect osc2 (ToNode lpf) c;
          c = connect osc3 (ToNode lpf) c;
          c = connect lpf (ToNode gain) c;
          c = connect gain (ToNode dry) c;
          c = connect gain (ToNode reverbIn) c
      in (\<lparr>d_osc1 = osc1, d_osc2 = osc2, d_osc3 = osc3, d_lfo = lfo, d_lpf = lpf,
           d_gain = gain, running = False\<rparr>, c))"

text \<open>A statement on the context, run in the state of a closure and the context.\<close>

definition on_ctx :: "(audio_ctx \<Rightarrow> (unit, audio_ctx) outcome) \<Rightarrow>
    'd \<times> audio_ctx \<Rightarrow> (unit, 'd \<times> audio_ctx) outcome" where
  "on_ctx f s = (case f (snd s) of
       Normal u c \<Rightarrow> Normal () (fst s, c)
     | Thrown e c \<Rightarrow> Thrown e (fst s, c))"

text \<open>
  \<^verbatim>\<open>
  function start() { if (running) return; running = true;
                     osc1.start(); osc2.start(); osc3.start(); lfo.start(); }
  function stop() { if (!running) return; running = false;
                    try { osc1.stop(); osc2.stop(); osc3.stop(); lfo.stop(); } catch {} }
  \<close>
\<close>

definition drone_start :: "drone_layer \<times> audio_ctx \<Rightarrow> (unit, drone_layer \<times> audio_ctx) outcome" where
  "drone_start s =
     (let d = fst s in
      if running d then Normal () s
      else run_all [on_ctx (node_start (d_osc1 d) 0), on_ctx (node_start (d_osc2 d) 0),
                    on_ctx (node_start (d_osc3 d) 0), on_ctx (node_start (d_lfo d) 0)]
             (d\<lparr>running := True\<rparr>, snd s))"

definition drone_stop :: "drone_layer \<times> audio_ctx \<Rightarrow> (unit, drone_layer \<times> audio_ctx) outcome" where
  "drone_stop s =
     (let d = fst s in
      if \<not> running d then Normal () s
      else Normal ()
             (swallow
               (run_all [on_ctx (node_stop (d_osc1 d) 0), on_ctx (node_stop (d_osc2 d) 0),
                         on_ctx (node_stop (d_osc3 d) 0), on_ctx (node_stop (d_lfo d) 0)]
                  (d\<lparr>running := False\<rparr>, snd s))))"

definition setTension :: "drone_layer \<Rightarrow> real \<Rightarrow> audio_ctx \<Rightarrow> audio_ctx" where
  "setTension d tens c0 =
     (let cutoff = scale tens 0 100 260 1800;
          c = automate (d_lpf d) ''frequency'' (SetTargetAtTime cutoff (currentTime c0) 0.5) c0;
          c = automate (d_gain d) ''gain''
                (SetTargetAtTime (scale tens 0 100 0.1 0.2) (currentTime c) 0.5) c
      in c)"

subsection \<open>\<^verbatim>\<open>createPulse\<close>\<close>

text \<open>
  \<^verbatim>\<open>makeSaturationCurve(amount = 400)\<close>; the argument is a number at its only call, so
  \<^verbatim>\<open>k\<close> is the argument.
\<close>

definition makeSaturationCurve :: "real \<Rightarrow> float_array" where
  "makeSaturationCurve amount =
     (let k = amount;
          nSamples = 44100;
          deg = pi / 180
      in \<lparr>size_of = nSamples,
          sample = (\<lambda>i. if i < nSamples
                        then (let x = (real i * 2) / real nSamples - 1
                              in ((3 + k) * x * 20 * deg) / (pi + k * \<bar>x\<bar>))
                        else 0)\<rparr>)"

record pulse_layer =
  p_osc :: nat
  p_gain :: nat

definition createPulse :: "audio_ctx \<Rightarrow> nat \<Rightarrow> nat \<Rightarrow> (pulse_layer, audio_ctx) outcome" where
  "createPulse c0 reverbIn dry =
     (let (osc, c) = create OscillatorNode c0;
          c = set_type osc ''sine'' c; c = set_value osc ''frequency'' 50 c;
          (gain, c) = create GainNode c;
          c = set_value gain ''gain'' 0.0 c;
          (shaper, c) = create WaveShaperNode c;
          c = map_node shaper (\<lambda>n. n\<lparr>curve := Some (makeSaturationCurve 400)\<rparr>) c;
          c = connect osc (ToNode shaper) c;
          c = connect shaper (ToNode gain) c;
          c = connect gain (ToNode dry) c;
          c = connect gain (ToNode reverbIn) c
      in case node_start osc 0 c of
           Normal u c \<Rightarrow> Normal \<lparr>p_osc = osc, p_gain = gain\<rparr> c
         | Thrown e c \<Rightarrow> Thrown e c)"

definition pulse_trigger :: "pulse_layer \<Rightarrow> real \<Rightarrow> audio_ctx \<Rightarrow> audio_ctx" where
  "pulse_trigger p time c0 =
     (let now = js_or time (currentTime c0);
          c = cancel (p_osc p) ''frequency'' now c0;
          c = automate (p_osc p) ''frequency'' (SetValueAtTime 60 now) c;
          c = automate (p_osc p) ''frequency'' (ExponentialRampToValueAtTime 40 (now + 0.09)) c;
          c = cancel (p_gain p) ''gain'' now c;
          c = automate (p_gain p) ''gain'' (SetValueAtTime 0.0 now) c;
          c = automate (p_gain p) ''gain'' (LinearRampToValueAtTime 0.6 (now + 0.01)) c;
          c = automate (p_gain p) ''gain'' (ExponentialRampToValueAtTime 0.0001 (now + 0.6)) c
      in c)"

subsection \<open>\<^verbatim>\<open>createTexture\<close>\<close>

record texture_layer =
  noiseBuffer :: audio_buffer
  tx_reverbIn :: nat
  tx_dry :: nat

definition createTexture :: "audio_ctx \<Rightarrow> nat \<Rightarrow> nat \<Rightarrow> rng \<Rightarrow> texture_layer \<times> rng" where
  "createTexture c reverbIn dry r =
     (let n = sampleRate c * 2;
          data = \<lparr>size_of = n,
                  sample = (\<lambda>i. if i < n then (unit_draw r (used r + i) * 2 - 1) * 0.8 else 0)\<rparr>
      in (\<lparr>noiseBuffer = \<lparr>numberOfChannels = 1, bufferRate = sampleRate c, channel0 = data\<rparr>,
           tx_reverbIn = reverbIn, tx_dry = dry\<rparr>,
          r\<lparr>used := used r + n\<rparr>))"

definition texture_trigger :: "texture_layer \<Rightarrow> real \<Rightarrow> real \<Rightarrow>
    audio_ctx \<times> rng \<Rightarrow> (unit, audio_ctx \<times> rng) outcome" where
  "texture_trigger tx time tens s =
     (let now = js_or time (currentTime (fst s));
          (src, c) = create AudioBufferSourceNode (fst s);
          c = map_node src (\<lambda>n. n\<lparr>buffer := Some (noiseBuffer tx)\<rparr>) c;
          (bp, c) = create BiquadFilterNode c;
          c = set_type bp ''bandpass'' c;
          (x, r) = Math_random (snd s);
          center = scale tens 0 100 400 3200 * (1 + (x - 0.5) * 0.3);
          c = set_value bp ''frequency'' center c;
          c = set_value bp ''Q'' (scale tens 0 100 2 8) c;
          (env, c) = create GainNode c;
          c = set_value env ''gain'' 0.0 c;
          c = connect src (ToNode bp) c;
          c = connect bp (ToNode env) c;
          c = connect env (ToNode (tx_reverbIn tx)) c;
          c = connect env (ToNode (tx_dry tx)) c;
          c = automate env ''gain'' (SetValueAtTime 0.0 now) c;
          c = automate env ''gain''
                (LinearRampToValueAtTime (scale tens 0 100 0.12 0.35) (now + 0.02)) c;
          c = automate env ''gain''
                (ExponentialRampToValueAtTime 0.0001 (now + scale tens 0 100 1.6 0.6)) c
      in case run_all [node_start src now, node_stop src (now + 2.0)] c of
           Normal u c \<Rightarrow> Normal () (c, r)
         | Thrown e c \<Rightarrow> Thrown e (c, r))"

subsection \<open>\<^verbatim>\<open>createPluck\<close>\<close>

record pluck_layer =
  pl_reverbIn :: nat
  pl_dry :: nat

definition createPluck :: "audio_ctx \<Rightarrow> nat \<Rightarrow> nat \<Rightarrow> pluck_layer" where
  "createPluck c reverbIn dry = \<lparr>pl_reverbIn = reverbIn, pl_dry = dry\<rparr>"

definition pluck_trigger :: "pluck_layer \<Rightarrow> real \<Rightarrow> real \<Rightarrow>
    audio_ctx \<times> rng \<Rightarrow> (unit, audio_ctx \<times> rng) outcome" where
  "pluck_trigger pl time tens s =
     (let now = js_or time (currentTime (fst s));
          (osc, c) = create OscillatorNode (fst s);
          (x1, r) = Math_random (snd s);
          c = set_type osc (if x1 < 0.5 then ''square'' else ''triangle'') c;
          (x2, r) = Math_random r;
          base = 440 * 2 powr real_of_int \<lfloor>x2 * 3\<rfloor>;
          (x3, r) = Math_random r;
          intervalSemis = [1, 2, 6, 10] ! nat \<lfloor>x3 * 4\<rfloor>;
          freq = base * 2 powr (intervalSemis / 12);
          c = set_value osc ''frequency'' freq c;
          (env, c) = create GainNode c;
          c = set_value env ''gain'' 0.0 c;
          (hp, c) = create BiquadFilterNode c;
          c = set_type hp ''highpass'' c;
          c = set_value hp ''frequency'' 600 c;
          c = connect osc (ToNode hp) c;
          c = connect hp (ToNode env) c;
          c = connect env (ToNode (pl_reverbIn pl)) c;
          c = connect env (ToNode (pl_dry pl)) c;
          c = automate env ''gain'' (SetValueAtTime 0.0 now) c;
          c = automate env ''gain''
                (LinearRampToValueAtTime (scale tens 0 100 0.06 0.18) (now + 0.005)) c;
          c = automate env ''gain''
                (ExponentialRampToValueAtTime 0.0001 (now + scale tens 0 100 1.2 0.45)) c
      in case run_all [node_start osc now, node_stop osc (now + 2.0)] c of
           Normal u c \<Rightarrow> Normal () (c, r)
         | Thrown e c \<Rightarrow> Thrown e (c, r))"

section \<open>The component \<^verbatim>\<open>AudioEngine\<close>\<close>

text \<open>
  The component keeps three refs and registers two effects. What outlives one run of the
  first effect is what its closures hold: the context, the node handles, the layers and
  the \<^verbatim>\<open>tension\<close> of the render the effect ran in. These objects are kept in a heap of
  sessions, one per run of the effect and never removed; refs, timer callbacks and the
  cleanup closure name their session by its index.
\<close>

record props =
  isRunning :: bool
  tension :: real
  pulse :: real
  reverb :: real
  volume :: real

record session =
  s_ctx :: audio_ctx
  s_masterGain :: nat
  s_reverbWet :: nat
  s_dryGain :: nat
  s_drone :: drone_layer
  s_pulseNode :: pulse_layer
  s_texture :: texture_layer
  s_pluck :: pluck_layer
  s_tension :: real

text \<open>The three arrow functions given to \<^verbatim>\<open>setInterval\<close>, each with its session.\<close>

datatype callback = PulseTimer nat | NoiseTimer nat | PluckTimer nat

record interval =
  timer_id :: nat
  delay_ms :: real
  due_ms :: real
  callback :: callback

text \<open>
  The calls the claims about order and silence speak of are recorded in a trace, in the
  order they are made.
\<close>

datatype call =
    ClearInterval nat
  | DroneStop nat
  | CtxClose nat
  | PulseTrigger nat real
  | TextureTrigger nat real real
  | PluckTrigger nat real real

record engine =
  sessions :: "session list"
  ctxRef :: "nat option"
  nodesRef :: "nat option"
  timersRef :: "nat list"
  cleanup :: "nat option"
  rendered :: "props option"
  intervals :: "interval list"
  next_timer :: nat
  clock_ms :: real
  random_source :: rng
  deviceRate :: nat
  trace :: "call list"
  uncaught :: "error list"

definition initial :: "nat \<Rightarrow> (nat \<Rightarrow> nat) \<Rightarrow> engine" where
  "initial rate ds = \<lparr>sessions = [], ctxRef = None, nodesRef = None, timersRef = [],
     cleanup = None, rendered = None, intervals = [], next_timer = 1, clock_ms = 0,
     random_source = \<lparr>draws = ds, used = 0\<rparr>, deviceRate = rate, trace = [], uncaught = []\<rparr>"

subsection \<open>Timers of the browser\<close>

text \<open>
  \<^verbatim>\<open>setInterval(f, ms)\<close> makes a timer that is due every \<open>ms\<close> milliseconds from now on;
  \<^verbatim>\<open>clearInterval(id)\<close> removes it.
\<close>

definition setInterval :: "callback \<Rightarrow> real \<Rightarrow> engine \<Rightarrow> nat \<times> engine" where
  "setInterval f ms e =
     (next_timer e,
      e\<lparr>intervals := intervals e @
           [\<lparr>timer_id = next_timer e, delay_ms = ms, due_ms = clock_ms e + ms, callback = f\<rparr>],
        next_timer := Suc (next_timer e)\<rparr>)"

definition clearInterval :: "nat \<Rightarrow> engine \<Rightarrow> engine" where
  "clearInterval t e =
     e\<lparr>intervals := filter (\<lambda>i. timer_id i \<noteq> t) (intervals e),
       trace := trace e @ [ClearInterval t]\<rparr>"

definition log :: "call \<Rightarrow> engine \<Rightarrow> engine" where
  "log x e = e\<lparr>trace := trace e @ [x]\<rparr>"

definition update_session :: "nat \<Rightarrow> (session \<Rightarrow> session) \<Rightarrow> engine \<Rightarrow> engine" where
  "update_session k f e = e\<lparr>sessions := (sessions e)[k := f (sessions e ! k)]\<rparr>"

subsection \<open>The first effect: start of a session and its cleanup\<close>

text \<open>
  The body of \<^verbatim>\<open>useEffect(() => { if (!isRunning) return; ... }, [isRunning])\<close>. Its
  result is the cleanup it returns: the session whose closure it is, or nothing.
\<close>

definition start_session :: "props \<Rightarrow> engine \<Rightarrow> (nat option, engine) outcome" where
  "start_session p e =
     (let c = new_ctx (deviceRate e);
          (masterGain, c) = create GainNode c;
          c = set_value masterGain ''gain'' (dbToGain (scale (volume p) 0 100 (- 36) (- 3))) c;
          (compressor, c) = create DynamicsCompressorNode c;
          c = set_value compressor ''threshold'' (- 24) c;
          c = set_value compressor ''knee'' 20 c;
          c = set_value compressor ''ratio'' 3 c;
          c = set_value compressor ''attack'' 0.003 c;
          c = set_value compressor ''release'' 0.25 c;
          (reverbBus, c) = createSimpleReverb c;
          (reverbWet, c) = create GainNode c;
          c = set_value reverbWet ''gain'' (scale (reverb p) 0 100 0.05 0.5) c;
          (dryGain, c) = create GainNode c;
          c = set_value dryGain ''gain'' 1.0 c;
          c = connect (rv_output reverbBus) (ToNode reverbWet) c;
          c = connect reverbWet (ToNode compressor) c;
          c = connect dryGain (ToNode compressor) c;
          c = connect compressor (ToNode masterGain) c;
          c = connect masterGain (ToNode destination) c;
          (drone, c) = createDrone c (rv_input reverbBus) dryGain
      in case createPulse c (rv_input reverbBus) dryGain of
           Thrown x c \<Rightarrow> Thrown x e
         | Normal pulseNode c \<Rightarrow>
             (let (texture, r) = createTexture c (rv_input reverbBus) dryGain (random_source e);
                  e = e\<lparr>random_source := r\<rparr>;
                  pulseMs = scale (pulse p) 0 100 1600 420;
                  noiseEveryMs = scale (tension p) 0 100 4200 1300;
                  k = length (sessions e);
                  (pulseTimer, e) = setInterval (PulseTimer k) pulseMs e;
                  (noiseTimer, e) = setInterval (NoiseTimer k) noiseEveryMs e;
                  pluck = createPluck c (rv_input reverbBus) dryGain;
                  (pluckTimer, e) = setInterval (PluckTimer k) 2000 e;
                  e = e\<lparr>sessions := sessions e @
                         [\<lparr>s_ctx = c, s_masterGain = masterGain, s_reverbWet = reverbWet,
                           s_dryGain = dryGain, s_drone = drone, s_pulseNode = pulseNode,
                           s_texture = texture, s_pluck = pluck, s_tension = tension p\<rparr>],
                       ctxRef := Some k, nodesRef := Some k,
                       timersRef := [pulseTimer, noiseTimer, pluckTimer]\<rparr>
              in case drone_start (s_drone (sessions e ! k), s_ctx (sessions e ! k)) of
                   Normal u (d, c) \<Rightarrow>
                     Normal (Some k) (update_session k (\<lambda>x. x\<lparr>s_drone := d, s_ctx := c\<rparr>) e)
                 | Thrown x (d, c) \<Rightarrow>
                     Thrown x (update_session k (\<lambda>x. x\<lparr>s_drone := d, s_ctx := c\<rparr>) e)))"

definition effect_session :: "props \<Rightarrow> engine \<Rightarrow> (nat option, engine) outcome" where
  "effect_session p e = (if \<not> isRunning p then Normal None e else start_session p e)"

text \<open>
  \<^verbatim>\<open>
  return () => {
    timersRef.current.forEach((t) => clearInterval(t));
    timersRef.current = [];
    try { drone.stop(); } catch {}
    try { ctx.close(); } catch {}
    ctxRef.current = null;
    nodesRef.current = null;
  };
  \<close>
  The closure of session \<open>k\<close>: \<^verbatim>\<open>drone\<close> and \<^verbatim>\<open>ctx\<close> are that session's, the timers are
  the ones the ref holds when it runs.
\<close>

definition teardown :: "nat \<Rightarrow> engine \<Rightarrow> engine" where
  "teardown k e0 =
     (let e = fold clearInterval (timersRef e0) e0;
          e = e\<lparr>timersRef := []\<rparr>;
          e = log (DroneStop k) e;
          (d, c) = swallow (drone_stop (s_drone (sessions e ! k), s_ctx (sessions e ! k)));
          e = update_session k (\<lambda>x. x\<lparr>s_drone := d, s_ctx := c\<rparr>) e;
          e = log (CtxClose k) e;
          c = swallow (ctx_close (s_ctx (sessions e ! k)));
          e = update_session k (\<lambda>x. x\<lparr>s_ctx := c\<rparr>) e
      in e\<lparr>ctxRef := None, nodesRef := None\<rparr>)"

subsection \<open>The second effect: live parameters\<close>

text \<open>
  \<^verbatim>\<open>
  useEffect(() => {
    if (!nodesRef.current) return;
    const { masterGain, reverbWet, drone } = nodesRef.current;
    masterGain.gain.setTargetAtTime(dbToGain(scale(volume, 0, 100, -36, -3)), ctxRef.current.currentTime, 0.05);
    reverbWet.gain.setTargetAtTime(scale(reverb, 0, 100, 0.05, 0.5), ctxRef.current.currentTime, 0.1);
    if (drone && drone.setTension) drone.setTension(tension);
  }, [tension, reverb, volume]);
  \<close>
\<close>

definition effect_params :: "props \<Rightarrow> engine \<Rightarrow> (unit, engine) outcome" where
  "effect_params p e =
     (case nodesRef e of
        None \<Rightarrow> Normal () e
      | Some n \<Rightarrow>
          (case ctxRef e of
             None \<Rightarrow> Thrown TypeError e
           | Some k \<Rightarrow>
               (let now = currentTime (s_ctx (sessions e ! k))
                in Normal ()
                     (update_session n
                        (\<lambda>x. x\<lparr>s_ctx :=
                           setTension (s_drone x) (tension p)
                             (automate (s_reverbWet x) ''gain''
                                (SetTargetAtTime (scale (reverb p) 0 100 0.05 0.5) now 0.1)
                                (automate (s_masterGain x) ''gain''
                                   (SetTargetAtTime
                                      (dbToGain (scale (volume p) 0 100 (- 36) (- 3))) now 0.05)
                                   (s_ctx x)))\<rparr>)
                        e))))"

subsection \<open>Renders\<close>

text \<open>
  An error that nothing catches is reported and the state stays as it was at the throw.
\<close>

definition report :: "('a, engine) outcome \<Rightarrow> engine" where
  "report r = (case r of Normal u e \<Rightarrow> e | Thrown x e \<Rightarrow> e\<lparr>uncaught := uncaught e @ [x]\<rparr>)"

definition run_cleanup :: "engine \<Rightarrow> engine" where
  "run_cleanup e = (case cleanup e of None \<Rightarrow> e | Some k \<Rightarrow> (teardown k e)\<lparr>cleanup := None\<rparr>)"

text \<open>
  A render with new props: an effect runs on the first render and when one of its
  dependencies has changed; the cleanup of an effect that runs again is called first, and
  the effects run in the order of their declaration.
\<close>

definition session_deps_changed :: "props option \<Rightarrow> props \<Rightarrow> bool" where
  "session_deps_changed old p = (case old of None \<Rightarrow> True | Some q \<Rightarrow> isRunning q \<noteq> isRunning p)"

definition params_deps_changed :: "props option \<Rightarrow> props \<Rightarrow> bool" where
  "params_deps_changed old p =
     (case old of None \<Rightarrow> True
      | Some q \<Rightarrow> \<not> (tension q = tension p \<and> reverb q = reverb p \<and> volume q = volume p))"

definition run_session_effect :: "props \<Rightarrow> engine \<Rightarrow> engine" where
  "run_session_effect p e =
     (case effect_session p e of
        Normal k e1 \<Rightarrow> e1\<lparr>cleanup := k\<rparr>
      | Thrown x e1 \<Rightarrow> e1\<lparr>cleanup := None, uncaught := uncaught e1 @ [x]\<rparr>)"

definition render :: "props \<Rightarrow> engine \<Rightarrow> engine" where
  "render p e0 =
     (let old = rendered e0;
          e = (if session_deps_changed old p then run_cleanup e0 else e0);
          e = (if session_deps_changed old p then run_session_effect p e else e);
          e = (if params_deps_changed old p then report (effect_params p e) else e)
      in e\<lparr>rendered := Some p\<rparr>)"

definition unmount :: "engine \<Rightarrow> engine" where
  "unmount e = (run_cleanup e)\<lparr>rendered := None\<rparr>"

subsection \<open>Timers firing\<close>

text \<open>The clock moves on; the clock of every context that is not closed moves with it.\<close>

definition advance_clock :: "real \<Rightarrow> engine \<Rightarrow> engine" where
  "advance_clock t e =
     (if t \<le> clock_ms e then e
      else e\<lparr>clock_ms := t,
             sessions := map (\<lambda>x. if closed (s_ctx x) then x
                                   else x\<lparr>s_ctx := (s_ctx x)\<lparr>currentTime :=
                                          currentTime (s_ctx x) + (t - clock_ms e) / 1000\<rparr>\<rparr>)
                           (sessions e)\<rparr>)"

text \<open>The timer that is due first; of two due at the same time, the one set first.\<close>

fun earliest :: "interval list \<Rightarrow> interval option" where
  "earliest [] = None"
| "earliest (i # is) =
     (case earliest is of
        None \<Rightarrow> Some i
      | Some j \<Rightarrow> if due_ms j < due_ms i then Some j else Some i)"

text \<open>A trigger of a layer of session \<open>k\<close>, run on that session's context.\<close>

definition in_session :: "nat \<Rightarrow> (session \<Rightarrow> audio_ctx \<times> rng \<Rightarrow> (unit, audio_ctx \<times> rng) outcome) \<Rightarrow>
    engine \<Rightarrow> (unit, engine) outcome" where
  "in_session k f e =
     (let x = sessions e ! k
      in case f x (s_ctx x, random_source e) of
           Normal u (c, r) \<Rightarrow>
             Normal () ((update_session k (\<lambda>x. x\<lparr>s_ctx := c\<rparr>) e)\<lparr>random_source := r\<rparr>)
         | Thrown err (c, r) \<Rightarrow>
             Thrown err ((update_session k (\<lambda>x. x\<lparr>s_ctx := c\<rparr>) e)\<lparr>random_source := r\<rparr>))"

text \<open>
  \<^verbatim>\<open>
  () => pulseNode.trigger(ctx.currentTime)
  () => texture.trigger(ctx.currentTime, tension)
  () => { if (Math.random() < scale(tension, 0, 100, 0.15, 0.55)) {
            pluck.trigger(ctx.currentTime, tension); } }
  \<close>
\<close>

fun run_callback :: "callback \<Rightarrow> engine \<Rightarrow> (unit, engine) outcome" where
  "run_callback (PulseTimer k) e =
     (let x = sessions e ! k;
          e = log (PulseTrigger k (currentTime (s_ctx x))) e
      in Normal () (update_session k
           (\<lambda>x. x\<lparr>s_ctx := pulse_trigger (s_pulseNode x) (currentTime (s_ctx x)) (s_ctx x)\<rparr>) e))"
| "run_callback (NoiseTimer k) e =
     (let x = sessions e ! k;
          e = log (TextureTrigger k (currentTime (s_ctx x)) (s_tension x)) e
      in in_session k
           (\<lambda>x. texture_trigger (s_texture x) (currentTime (s_ctx x)) (s_tension x)) e)"
| "run_callback (PluckTimer k) e =
     (let x = sessions e ! k;
          (u, r) = Math_random (random_source e);
          e = e\<lparr>random_source := r\<rparr>
      in if u < scale (s_tension x) 0 100 0.15 0.55
         then in_session k
                (\<lambda>x. pluck_trigger (s_pluck x) (currentTime (s_ctx x)) (s_tension x))
                (log (PluckTrigger k (currentTime (s_ctx x)) (s_tension x)) e)
         else Normal () e)"

text \<open>The next timer fires: the clock reaches its due time, its callback runs, and it is due again one delay later.\<close>

definition fire_next :: "engine \<Rightarrow> engine" where
  "fire_next e0 =
     (case earliest (intervals e0) of
        None \<Rightarrow> e0
      | Some i \<Rightarrow>
          (let e = advance_clock (due_ms i) e0;
               e = report (run_callback (callback i) e)
           in e\<lparr>intervals := map (\<lambda>j. if timer_id j = timer_id i
                                        then j\<lparr>due_ms := due_ms j + delay_ms j\<rparr> else j)
                                  (intervals e)\<rparr>))"

text \<open>Time passes without a timer firing: at most until the next one is due.\<close>

definition time_passes :: "real \<Rightarrow> engine \<Rightarrow> engine" where
  "time_passes d e =
     (case earliest (intervals e) of
        None \<Rightarrow> advance_clock (clock_ms e + d) e
      | Some i \<Rightarrow> advance_clock (min (clock_ms e + d) (due_ms i)) e)"

subsection \<open>Runs of the component\<close>

datatype event = Render props | Unmount | TimerFires | TimePasses real

fun step :: "event \<Rightarrow> engine \<Rightarrow> engine" where
  "step (Render p) e = render p e"
| "step Unmount e = unmount e"
| "step TimerFires e = fire_next e"
| "step (TimePasses d) e = time_passes d e"

definition run :: "event list \<Rightarrow> engine \<Rightarrow> engine" where
  "run evs e = fold step evs e"

text \<open>The triggers made into the layers of session \<open>k\<close>, as the trace has them.\<close>

fun is_trigger_of :: "nat \<Rightarrow> call \<Rightarrow> bool" where
  "is_trigger_of k (PulseTrigger j t) = (j = k)"
| "is_trigger_of k (TextureTrigger j t x) = (j = k)"
| "is_trigger_of k (PluckTrigger j t x) = (j = k)"
| "is_trigger_of k _ = False"

definition triggers_of :: "nat \<Rightarrow> engine \<Rightarrow> call list" where
  "triggers_of k e = filter (is_trigger_of k) (trace e)"

section \<open>Notions used to state the properties\<close>


definition interpolate :: "jsnum \<Rightarrow> jsnum \<Rightarrow> jsnum \<Rightarrow> jsnum" where
  "interpolate t outMin outMax = ieee_add outMin (ieee_mul t (ieee_sub outMax outMin))"

text \<open>Nodes as the reverb configures them.\<close>

definition gain_node :: "real \<Rightarrow> audio_node" where
  "gain_node g = (new_node GainNode)\<lparr>params := [(''gain'', param0 g)]\<rparr>"

definition delay_line :: "real \<Rightarrow> real \<Rightarrow> audio_node" where
  "delay_line t cap = (new_node DelayNode)\<lparr>params := [(''delayTime'', param0 t)], maxDelayTime := cap\<rparr>"

definition lowpass_filter :: "real \<Rightarrow> audio_node" where
  "lowpass_filter f = (new_node BiquadFilterNode)\<lparr>ntype := ''lowpass'',
     params := [(''frequency'', param0 f), (''detune'', param0 0), (''Q'', param0 1), (''gain'', param0 0)]\<rparr>"

text \<open>The session whose layers a timer callback triggers.\<close>

fun callback_session :: "callback \<Rightarrow> nat" where
  "callback_session (PulseTimer k) = k"
| "callback_session (NoiseTimer k) = k"
| "callback_session (PluckTimer k) = k"

text \<open>
  The invariant of the component: while no cleanup is pending no timer is active; while
  the cleanup of session \<open>k\<close> is pending, \<open>k\<close> is the session made last, the active timers
  are the ones held in \<^verbatim>\<open>timersRef\<close>, and they are the pulse, texture and pluck timers of
  \<open>k\<close>, in this order.
\<close>

definition timers_owned :: "engine \<Rightarrow> bool" where
  "timers_owned e =
     (case cleanup e of
        None \<Rightarrow> intervals e = [] \<and> timersRef e = [] \<and>
                (case rendered e of None \<Rightarrow> True | Some q \<Rightarrow> \<not> isRunning q)
      | Some k \<Rightarrow> Suc k = length (sessions e) \<and>
                map timer_id (intervals e) = timersRef e \<and>
                map callback (intervals e) = [PulseTimer k, NoiseTimer k, PluckTimer k] \<and>
                (case rendered e of None \<Rightarrow> False | Some q \<Rightarrow> isRunning q))"

text \<open>Session \<open>k\<close> exists and its cleanup is not pending: it was torn down.\<close>

definition outlived :: "nat \<Rightarrow> engine \<Rightarrow> bool" where
  "outlived k e = (timers_owned e \<and> k < length (sessions e) \<and> cleanup e \<noteq> Some k)"

text \<open>Two states with the same timers, refs, pending cleanup, props and number of sessions.\<close>

definition same_control :: "engine \<Rightarrow> engine \<Rightarrow> bool" where
  "same_control e e' =
     (intervals e' = intervals e \<and> timersRef e' = timersRef e \<and> cleanup e' = cleanup e \<and>
      rendered e' = rendered e \<and> length (sessions e') = length (sessions e))"

text \<open>The events that leave a running session running.\<close>

fun keeps_running :: "event \<Rightarrow> bool" where
  "keeps_running (Render p) = isRunning p"
| "keeps_running Unmount = False"
| "keeps_running TimerFires = True"
| "keeps_running (TimePasses d) = True"

text \<open>
  The page that uses the component: its initial state
  \<^verbatim>\<open>useState(false)\<close>, \<^verbatim>\<open>useState(70)\<close>, \<^verbatim>\<open>useState(60)\<close>, \<^verbatim>\<open>useState(65)\<close>, \<^verbatim>\<open>useState(75)\<close>,
  the component mounted with it, and the session after a click on Start.
\<close>

definition home_defaults :: props where
  "home_defaults = \<lparr>isRunning = False, tension = 70, pulse = 60, reverb = 65, volume = 75\<rparr>"

definition home_mounted :: engine where
  "home_mounted = run [Render home_defaults] (initial 44100 (\<lambda>n. 0))"

definition home_session :: engine where
  "home_session =
     run [Render home_defaults, Render (home_defaults\<lparr>isRunning := True\<rparr>)] (initial 44100 (\<lambda>n. 0))"

section \<open>Properties of the parameter mapper\<close>

lemma clamp_between: "mn \<le> mx \<Longrightarrow> mn \<le> clamp v mn mx \<and> clamp v mn mx \<le> mx"
  by (simp add: clamp_def)


lemma clamp_mono: "v \<le> w \<Longrightarrow> clamp v mn mx \<le> clamp w mn mx"
  by (auto simp: clamp_def max_def min_def)

lemma scale_factor: "scale v a b lo hi = lo + factor v a b * (hi - lo)"
  by (simp add: scale_def factor_def)

lemma factor_unit: "0 \<le> factor v a b \<and> factor v a b \<le> 1"
proof (cases "a < b")
  case True
  then have "a \<le> clamp v a b" "clamp v a b \<le> b"
    using clamp_between [of a b v] by simp_all
  with True show ?thesis
    by (simp add: factor_def js_or_def)
next
  case False
  then have "clamp v a b = a"
    by (cases "a = b") (simp_all add: clamp_def)
  then show ?thesis
    by (simp add: factor_def)
qed

lemma factor_mono: "v \<le> w \<Longrightarrow> factor v a b \<le> factor w a b"
proof (cases "a < b")
  case True
  assume "v \<le> w"
  then have "clamp v a b - a \<le> clamp w a b - a"
    using clamp_mono [of v w a b] by simp
  with True show ?thesis
    by (simp add: factor_def js_or_def divide_right_mono)
next
  case False
  then have "clamp v a b = a" "clamp w a b = a"
    by (cases "a = b"; simp add: clamp_def)+
  then show ?thesis
    by (simp add: factor_def)
qed

lemma scale_num_finite:
  "scale_num (Num v) (Num a) (Num b) (Num lo) (Num hi) = Num (scale v a b lo hi)"
  by (simp add: scale_num_def scale_def clamp_num_def clamp_def js_sub_def js_or_def
      Let_def max_def min_def)

subsection \<open>Rounding to the nearest double\<close>

text \<open>
  Rounding to the nearest integer, ties to even: monotone, odd, the identity on the
  integers, and never further than one half from its argument.
\<close>

lemma round_half_even_cases: "round_half_even y = \<lfloor>y\<rfloor> \<or> round_half_even y = \<lfloor>y\<rfloor> + 1"
  by (simp add: round_half_even_def Let_def)

lemma round_half_even_of_int: "round_half_even (of_int n) = n"
  by (simp add: round_half_even_def)

lemma round_half_even_mono: "y \<le> z \<Longrightarrow> round_half_even y \<le> round_half_even z"
proof -
  assume yz: "y \<le> z"
  have fl: "\<lfloor>y\<rfloor> \<le> \<lfloor>z\<rfloor>" using yz by (rule floor_mono)
  show ?thesis
  proof (cases "\<lfloor>y\<rfloor> = \<lfloor>z\<rfloor>")
    case True
    then show ?thesis using yz by (auto simp add: round_half_even_def Let_def)
  next
    case False
    then have "\<lfloor>y\<rfloor> + 1 \<le> \<lfloor>z\<rfloor>" using fl by simp
    moreover have "round_half_even y \<le> \<lfloor>y\<rfloor> + 1" using round_half_even_cases [of y] by auto
    moreover have "\<lfloor>z\<rfloor> \<le> round_half_even z" using round_half_even_cases [of z] by auto
    ultimately show ?thesis by linarith
  qed
qed

lemma round_half_even_minus: "round_half_even (- y) = - round_half_even y"
proof (cases "y = of_int \<lfloor>y\<rfloor>")
  case True
  then obtain n where "y = of_int n" ..
  then have "- y = of_int (- n)" by simp
  then show ?thesis using round_half_even_of_int [of "- n"] round_half_even_of_int [of n] \<open>y = of_int n\<close> by simp
next
  case False
  then have c: "\<lceil>y\<rceil> = \<lfloor>y\<rfloor> + 1" by (simp add: ceiling_altdef)
  have f: "\<lfloor>- y\<rfloor> = - \<lfloor>y\<rfloor> - 1" by (simp add: floor_minus c)
  show ?thesis
    by (auto simp add: round_half_even_def Let_def f)
qed


text \<open>The exponent of a number: the binade it lies in, from \<open>- 1022\<close> upwards.\<close>

lemma floor_log_bounds:
  assumes "x \<noteq> 0"
  shows "2 powi \<lfloor>Transcendental.log 2 \<bar>x\<bar>\<rfloor> \<le> \<bar>x\<bar>" and "\<bar>x\<bar> < 2 powi (\<lfloor>Transcendental.log 2 \<bar>x\<bar>\<rfloor> + 1)"
proof -
  have pos: "0 < \<bar>x\<bar>" using assms by simp
  have "2 powr real_of_int \<lfloor>Transcendental.log 2 \<bar>x\<bar>\<rfloor> \<le> \<bar>x\<bar> \<and> \<bar>x\<bar> < 2 powr (real_of_int \<lfloor>Transcendental.log 2 \<bar>x\<bar>\<rfloor> + 1)"
    using floor_log_eq_powr_iff [of "\<bar>x\<bar>" 2 "\<lfloor>Transcendental.log 2 \<bar>x\<bar>\<rfloor>"] pos by simp
  moreover have "real_of_int \<lfloor>Transcendental.log 2 \<bar>x\<bar>\<rfloor> + 1 = real_of_int (\<lfloor>Transcendental.log 2 \<bar>x\<bar>\<rfloor> + 1)" by simp
  ultimately show "2 powi \<lfloor>Transcendental.log 2 \<bar>x\<bar>\<rfloor> \<le> \<bar>x\<bar>" and "\<bar>x\<bar> < 2 powi (\<lfloor>Transcendental.log 2 \<bar>x\<bar>\<rfloor> + 1)"
    by (simp_all only: powr_real_of_int' [of 2, simplified])
qed

lemma floor_log_eqI:
  assumes "2 powi e \<le> \<bar>x\<bar>" and "\<bar>x\<bar> < 2 powi (e + 1)"
  shows "\<lfloor>Transcendental.log 2 \<bar>x\<bar>\<rfloor> = e"
proof -
  have "0 < (2::real) powi e" by simp
  then have pos: "0 < \<bar>x\<bar>" using assms(1) by linarith
  have "2 powr real_of_int e \<le> \<bar>x\<bar>" using assms(1) by (simp add: powr_real_of_int')
  moreover have "\<bar>x\<bar> < 2 powr (real_of_int e + 1)"
    using assms(2) powr_real_of_int' [of 2 "e + 1"] by simp
  ultimately show ?thesis using floor_log_eq_powr_iff [of "\<bar>x\<bar>" 2 e] pos by simp
qed

lemma exponent_upper: "\<bar>x\<bar> < 2 powi (exponent x + 1)"
proof (cases "x = 0")
  case True then show ?thesis by simp
next
  case False
  have "\<bar>x\<bar> < 2 powi (\<lfloor>Transcendental.log 2 \<bar>x\<bar>\<rfloor> + 1)" using floor_log_bounds(2) [OF False] .
  also have "\<dots> \<le> 2 powi (exponent x + 1)"
    using False by (intro power_int_increasing) (simp_all add: exponent_def)
  finally show ?thesis .
qed

lemma exponent_lower: "- 1022 < exponent x \<Longrightarrow> 2 powi exponent x \<le> \<bar>x\<bar>"
  using floor_log_bounds(1) [of x] by (auto simp add: exponent_def max_def split: if_splits)

lemma exponent_eqI:
  assumes "2 powi e \<le> \<bar>x\<bar>" and "\<bar>x\<bar> < 2 powi (e + 1)" and "- 1022 \<le> e"
  shows "exponent x = e"
proof -
  have "\<not> (2::real) powi e \<le> 0" by (simp add: not_le)
  then have "x \<noteq> 0" using assms(1) by (cases "x = 0") simp_all
  then show ?thesis using floor_log_eqI [OF assms(1,2)] assms(3) by (simp add: exponent_def)
qed

lemma exponent_minus: "exponent (- x) = exponent x"
  by (simp add: exponent_def)

lemma exponent_ge: "- 1022 \<le> exponent x"
  by (simp add: exponent_def)

lemma exponent_mono:
  assumes "\<bar>x\<bar> \<le> \<bar>y\<bar>"
  shows "exponent x \<le> exponent y"
proof (cases "x = 0")
  case True then show ?thesis using exponent_ge [of y] by (simp add: exponent_def)
next
  case False
  then have y: "y \<noteq> 0" using assms by auto
  have "Transcendental.log 2 \<bar>x\<bar> \<le> Transcendental.log 2 \<bar>y\<bar>" using False assms by (intro log_mono) simp_all
  then have "\<lfloor>Transcendental.log 2 \<bar>x\<bar>\<rfloor> \<le> \<lfloor>Transcendental.log 2 \<bar>y\<bar>\<rfloor>" by (rule floor_mono)
  then show ?thesis using False y by (simp add: exponent_def)
qed


lemma ulp_pos: "0 < ulp x"
  by (simp add: ulp_def)

lemma ulp_minus: "ulp (- x) = ulp x"
  by (simp add: ulp_def exponent_minus)

lemma two_powi_53: "2 powi (e + 1) = 2 ^ 53 * (2::real) powi (e - 52)"
proof -
  have "e + 1 = 53 + (e - 52)" by simp
  then have "(2::real) powi (e + 1) = 2 powi (53 + (e - 52))" by (rule arg_cong)
  also have "\<dots> = 2 powi 53 * 2 powi (e - 52)" by (rule power_int_add) simp
  finally show ?thesis by simp
qed

lemma two_powi_52: "2 powi e = 2 ^ 52 * (2::real) powi (e - 52)"
proof -
  have "e = 52 + (e - 52)" by simp
  then have "(2::real) powi e = 2 powi (52 + (e - 52))" by (rule arg_cong)
  also have "\<dots> = 2 powi 52 * 2 powi (e - 52)" by (rule power_int_add) simp
  finally show ?thesis by simp
qed

lemma ulp_53: "2 powi (exponent x + 1) = 2 ^ 53 * ulp x"
  unfolding ulp_def by (rule two_powi_53)

lemma ulp_52: "2 powi exponent x = 2 ^ 52 * ulp x"
  unfolding ulp_def by (rule two_powi_52)

text \<open>
  \<open>round_double\<close> is odd and monotone, keeps every double, and is never further than half
  a unit in the last place from its argument.
\<close>

lemma round_double_0: "round_double 0 = 0"
  by (simp add: round_double_def round_half_even_def)

lemma round_double_minus: "round_double (- x) = - round_double x"
  by (simp add: round_double_def ulp_minus round_half_even_minus)

lemma round_double_nonneg: "0 \<le> x \<Longrightarrow> 0 \<le> round_double x"
proof -
  assume "0 \<le> x"
  then have "0 \<le> x / ulp x" using ulp_pos [of x] by simp
  then have "round_half_even 0 \<le> round_half_even (x / ulp x)" by (rule round_half_even_mono)
  then have "0 \<le> round_half_even (x / ulp x)" using round_half_even_of_int [of 0] by simp
  then show ?thesis using ulp_pos [of x] by (simp add: round_double_def)
qed

lemma round_double_upper:
  assumes "0 \<le> x"
  shows "round_double x \<le> 2 powi (exponent x + 1)"
proof -
  have "x < 2 powi (exponent x + 1)" using exponent_upper [of x] assms by simp
  then have "x < 2 ^ 53 * ulp x" by (simp only: ulp_53)
  then have "x / ulp x \<le> of_int (2 ^ 53)" using ulp_pos [of x] by (simp add: field_simps)
  then have "round_half_even (x / ulp x) \<le> round_half_even (of_int (2 ^ 53))" by (rule round_half_even_mono)
  then have "round_half_even (x / ulp x) \<le> 2 ^ 53" by (simp only: round_half_even_of_int)
  then have "real_of_int (round_half_even (x / ulp x)) \<le> 2 ^ 53"
    by (metis of_int_le_iff of_int_numeral of_int_power)
  then have "round_double x \<le> 2 ^ 53 * ulp x"
    using ulp_pos [of x] by (simp add: round_double_def)
  then show ?thesis by (simp only: ulp_53)
qed

lemma round_double_lower:
  assumes "0 \<le> x" and "- 1022 < exponent x"
  shows "2 powi exponent x \<le> round_double x"
proof -
  have "2 powi exponent x \<le> x" using exponent_lower [OF assms(2)] assms(1) by simp
  then have "2 ^ 52 * ulp x \<le> x" by (simp only: ulp_52)
  then have "of_int (2 ^ 52) \<le> x / ulp x" using ulp_pos [of x] by (simp add: field_simps)
  then have "round_half_even (of_int (2 ^ 52)) \<le> round_half_even (x / ulp x)" by (rule round_half_even_mono)
  then have "2 ^ 52 \<le> round_half_even (x / ulp x)" by (simp only: round_half_even_of_int)
  then have "2 ^ 52 \<le> real_of_int (round_half_even (x / ulp x))"
    by (metis of_int_le_iff of_int_numeral of_int_power)
  then have "2 ^ 52 * ulp x \<le> round_double x"
    using ulp_pos [of x] by (simp add: round_double_def)
  then show ?thesis by (simp only: ulp_52)
qed

lemma round_double_mono_nonneg:
  assumes "0 \<le> x" and "x \<le> y"
  shows "round_double x \<le> round_double y"
proof -
  have e: "exponent x \<le> exponent y" using assms by (intro exponent_mono) simp
  show ?thesis
  proof (cases "exponent x = exponent y")
    case True
    then have u: "ulp x = ulp y" by (simp add: ulp_def)
    have "x / ulp y \<le> y / ulp y" using assms(2) ulp_pos [of y] by (simp add: divide_right_mono)
    then have "round_half_even (x / ulp y) \<le> round_half_even (y / ulp y)" by (rule round_half_even_mono)
    then show ?thesis using ulp_pos [of y] by (simp add: round_double_def u)
  next
    case False
    then have lt: "exponent x + 1 \<le> exponent y" using e by simp
    have "round_double x \<le> 2 powi (exponent x + 1)" using assms(1) by (rule round_double_upper)
    also have "\<dots> \<le> 2 powi exponent y" using lt by (intro power_int_increasing) simp_all
    also have "\<dots> \<le> round_double y"
      using assms lt exponent_ge [of x] by (intro round_double_lower) simp_all
    finally show ?thesis .
  qed
qed

lemma round_double_mono:
  assumes "x \<le> y"
  shows "round_double x \<le> round_double y"
proof -
  consider "0 \<le> x" | "x < 0" "0 \<le> y" | "y < 0" using assms by linarith
  then show ?thesis
  proof cases
    case 1 then show ?thesis using assms by (rule round_double_mono_nonneg)
  next
    case 2
    have "0 \<le> round_double (- x)" using 2 by (intro round_double_nonneg) simp
    then have "round_double x \<le> 0" by (simp add: round_double_minus)
    moreover have "0 \<le> round_double y" using 2 by (intro round_double_nonneg)
    ultimately show ?thesis by linarith
  next
    case 3
    have "round_double (- y) \<le> round_double (- x)"
      using 3 assms by (intro round_double_mono_nonneg) simp_all
    then show ?thesis by (simp add: round_double_minus)
  qed
qed

lemma round_double_eval:
  assumes "2 powi e \<le> \<bar>x\<bar>" and "\<bar>x\<bar> < 2 powi (e + 1)" and "- 1022 \<le> e"
  shows "round_double x = of_int (round_half_even (x / 2 powi (e - 52))) * 2 powi (e - 52)"
  using exponent_eqI [OF assms] by (simp add: round_double_def ulp_def)


lemma round_double_powi:
  assumes "- 1022 \<le> k"
  shows "round_double (2 powi k) = 2 powi k"
proof -
  have lt: "(2::real) powi k < 2 powi (k + 1)" by (intro power_int_strict_increasing) simp_all
  have e: "exponent (2 powi k) = k" using lt assms by (intro exponent_eqI) simp_all
  have "(2::real) powi k / ulp (2 powi k) = of_int (2 ^ 52)"
    using ulp_52 [of "2 powi k"] ulp_pos [of "2 powi k"] by (simp add: e field_simps)
  then have "round_half_even (2 powi k / ulp (2 powi k)) = 2 ^ 52" by (simp only: round_half_even_of_int)
  then show ?thesis using ulp_52 [of "2 powi k"] by (simp add: round_double_def e)
qed




lemma max_double_bounds: "2 ^ 1023 \<le> max_double" "max_double < 2 ^ 1024"
  by (simp_all add: max_double_def)

lemma round_double_max: "round_double max_double = max_double"
  using round_double_eval [of 1023 max_double] by (simp add: max_double_def round_half_even_def)

lemma round_double_bounded:
  assumes "\<bar>x\<bar> \<le> max_double"
  shows "\<bar>round_double x\<bar> \<le> max_double"
proof -
  have "round_double x \<le> round_double max_double" using assms by (intro round_double_mono) simp
  moreover have "round_double (- max_double) \<le> round_double x"
    using assms by (intro round_double_mono) simp
  ultimately show ?thesis by (simp add: round_double_max round_double_minus abs_le_iff)
qed

text \<open>\<open>to_double\<close>: finite within the range of the doubles, and monotone for \<^verbatim>\<open><=\<close>.\<close>

lemma to_double_Num: "\<bar>round_double x\<bar> \<le> max_double \<Longrightarrow> to_double x = Num (round_double x)"
  by (simp add: to_double_def Let_def abs_le_iff not_less)


lemma to_double_isFinite: "isFinite (to_double x) = (\<bar>round_double x\<bar> \<le> max_double)"
  by (auto simp add: to_double_def Let_def abs_le_iff not_less)

lemma to_double_double: "is_double x \<Longrightarrow> to_double x = Num x"
  by (simp add: is_double_def to_double_Num)

lemma to_double_0: "to_double 0 = Num 0"
  using max_double_bounds(1) by (simp add: to_double_Num round_double_0)


lemma to_double_overflow: "to_double (2 * max_double) = PosInf"
proof -
  have "round_double (2 powi 1024) \<le> round_double (2 * max_double)"
    by (intro round_double_mono) (simp add: max_double_def)
  then have "2 powi 1024 \<le> round_double (2 * max_double)"
    using round_double_powi [of 1024] by simp
  then have "max_double < round_double (2 * max_double)"
    using max_double_bounds(2) by simp
  then show ?thesis by (simp add: to_double_def Let_def)
qed

lemma ieee_sub_Num: "ieee_sub (Num x) (Num y) = to_double (x - y)"
  by (simp add: ieee_sub_def js_sub_def)

lemma isFinite_sub: "\<bar>x - y\<bar> \<le> max_double \<Longrightarrow> isFinite (ieee_sub (Num x) (Num y))"
  by (simp add: ieee_sub_Num to_double_isFinite round_double_bounded)

subsection \<open>The rounded mapper on finite arguments\<close>






text \<open>
  When \<^verbatim>\<open>outMax - outMin\<close> does not overflow, the interpolation is \<open>outMin\<close> at the factor
  \<open>0\<close>, and it rises or falls with the factor as \<open>outMax\<close> lies above or below \<open>outMin\<close>.
\<close>

lemma interpolate_finite:
  assumes "isFinite (ieee_sub (Num hi) (Num lo))" and "0 \<le> t" and "t \<le> 1"
  shows "interpolate (Num t) (Num lo) (Num hi) =
           to_double (lo + round_double (t * round_double (hi - lo)))"
proof -
  define d where "d = round_double (hi - lo)"
  have dfin: "\<bar>d\<bar> \<le> max_double"
    using assms(1) by (simp add: ieee_sub_Num to_double_isFinite d_def)
  have "\<bar>t * d\<bar> \<le> 1 * \<bar>d\<bar>" unfolding abs_mult using assms(2,3) by (intro mult_right_mono) simp_all
  then have "\<bar>t * d\<bar> \<le> max_double" using dfin by simp
  then have "\<bar>round_double (t * d)\<bar> \<le> max_double" by (rule round_double_bounded)
  then have "ieee_mul (Num t) (Num d) = Num (round_double (t * d))"
    by (simp add: ieee_mul_def to_double_Num)
  moreover have "ieee_sub (Num hi) (Num lo) = Num d"
    using dfin by (simp add: ieee_sub_Num to_double_Num d_def)
  ultimately show ?thesis by (simp add: interpolate_def ieee_add_def d_def)
qed

lemma interpolate_0:
  assumes "is_double lo" and "isFinite (ieee_sub (Num hi) (Num lo))"
  shows "interpolate (Num 0) (Num lo) (Num hi) = Num lo"
  using interpolate_finite [OF assms(2), of 0] assms(1)
  by (simp add: round_double_0 to_double_double)





subsection \<open>Range and monotonicity of \<open>scale\<close>\<close>

text \<open>
  In exact arithmetic \<open>scale\<close> returns a value between \<open>outLo\<close> and \<open>outHi\<close> inclusive, and
  for fixed bounds it is monotonic in \<open>v\<close>: non-decreasing when \<open>outLo \<le> outHi\<close>,
  non-increasing when \<open>outHi < outLo\<close>; the degenerate range \<open>inLo = inHi\<close> and the inverted
  range \<open>inHi < inLo\<close> are included.
\<close>

lemma scale_exact_bounded_monotone:
  "min lo hi \<le> scale v a b lo hi \<and> scale v a b lo hi \<le> max lo hi \<and>
   (v \<le> w \<longrightarrow> (lo \<le> hi \<longrightarrow> scale v a b lo hi \<le> scale w a b lo hi) \<and>
                (hi < lo \<longrightarrow> scale w a b lo hi \<le> scale v a b lo hi))"
proof -
  have t: "0 \<le> factor v a b" "factor v a b \<le> 1"
    using factor_unit [of v a b] by simp_all
  have lower: "min lo hi \<le> scale v a b lo hi"
  proof (cases "lo \<le> hi")
    case True
    then have "0 \<le> factor v a b * (hi - lo)" using t by simp
    with True show ?thesis by (simp add: scale_factor)
  next
    case False
    then have "factor v a b * (lo - hi) \<le> 1 * (lo - hi)"
      using t by (intro mult_right_mono) simp_all
    with False show ?thesis by (simp add: scale_factor algebra_simps)
  qed
  have upper: "scale v a b lo hi \<le> max lo hi"
  proof (cases "lo \<le> hi")
    case True
    then have "factor v a b * (hi - lo) \<le> 1 * (hi - lo)"
      using t by (intro mult_right_mono) simp_all
    with True show ?thesis by (simp add: scale_factor algebra_simps)
  next
    case False
    then have "0 \<le> factor v a b * (lo - hi)" using t by simp
    with False show ?thesis by (simp add: scale_factor algebra_simps)
  qed
  have mono: "v \<le> w \<longrightarrow> (lo \<le> hi \<longrightarrow> scale v a b lo hi \<le> scale w a b lo hi) \<and>
                (hi < lo \<longrightarrow> scale w a b lo hi \<le> scale v a b lo hi)"
  proof (intro impI conjI)
    assume "v \<le> w" "lo \<le> hi"
    then have "factor v a b * (hi - lo) \<le> factor w a b * (hi - lo)"
      using factor_mono [of v w a b] by (intro mult_right_mono) simp_all
    then show "scale v a b lo hi \<le> scale w a b lo hi" by (simp add: scale_factor)
  next
    assume "v \<le> w" "hi < lo"
    then have "factor v a b * (lo - hi) \<le> factor w a b * (lo - hi)"
      using factor_mono [of v w a b] by (intro mult_right_mono) simp_all
    then show "scale w a b lo hi \<le> scale v a b lo hi" by (simp add: scale_factor algebra_simps)
  qed
  from lower upper mono show ?thesis by blast
qed








text \<open>
  Finite arguments whose difference overflows give NaN, which lies in no range: the
  input range from \<open>- max_double\<close> to \<open>max_double\<close> has the width \<open>Infinity\<close>, and the factor
  at its upper end is \<^verbatim>\<open>Infinity / Infinity\<close>.
\<close>

lemma is_double_max: "is_double max_double" "is_double (- max_double)"
  using max_double_bounds(1) by (simp_all add: is_double_def round_double_max round_double_minus)

lemma scale_ieee_overflow_input:
  "scale_ieee (Num max_double) (Num (- max_double)) (Num max_double) (Num 0) (Num 1) = NaN"
  using to_double_overflow max_double_bounds(1)
  by (simp add: scale_ieee_def clamp_num_def ieee_sub_def ieee_div_def ieee_mul_def ieee_add_def
      js_sub_def)


text \<open>Doubles met in the examples below.\<close>

lemma is_double_1600: "is_double 1600"
  using round_double_eval [of 10 1600] by (simp add: is_double_def round_half_even_def max_double_def)







subsection \<open>The degenerate input range\<close>

text \<open>
  Claim C9 says that \<open>scale v a a outLo outHi\<close> is exactly \<open>outLo\<close> for every input \<open>v\<close>.
  For NaN it is not: the clamp returns NaN, and so do the subtraction, the division,
  the multiplication and the addition after it.
\<close>

theorem scale_ieee_NaN:
  "clamp_num NaN (Num 50) (Num 50) = NaN \<and>
   scale_ieee NaN (Num 50) (Num 50) (Num 1600) (Num 420) = NaN"
  by (simp add: scale_ieee_def clamp_num_def ieee_sub_def ieee_div_def ieee_mul_def ieee_add_def
      js_sub_def)

text \<open>
  Nor is it when \<^verbatim>\<open>outMax - outMin\<close> overflows: the factor is \<open>0\<close>, and \<^verbatim>\<open>0 * Infinity\<close> is
  NaN.
\<close>

lemma scale_ieee_overflow_degenerate:
  "scale_ieee (Num 0) (Num 0) (Num 0) (Num (- max_double)) (Num max_double) = NaN"
  using to_double_overflow
  by (simp add: scale_ieee_def clamp_num_def ieee_sub_def ieee_div_def ieee_mul_def ieee_add_def
      js_sub_def to_double_0 signed_inf_def)

text \<open>
  Without the guard \<^verbatim>\<open>|| 1\<close> the factor of a degenerate range would be \<^verbatim>\<open>0 / 0\<close>, which
  is NaN.
\<close>

lemma unguarded_quotient: "ieee_div (ieee_sub (Num a) (Num a)) (ieee_sub (Num a) (Num a)) = NaN"
  by (simp add: ieee_sub_Num to_double_0 ieee_div_def signed_inf_def)

lemma js_or_num_nonzero: "js_or_num x (Num 1) \<noteq> Num 0"
  by (cases x) simp_all

lemma clamp_num_degenerate: "v \<noteq> NaN \<Longrightarrow> clamp_num v (Num a) (Num a) = Num a"
  by (cases v) (simp_all add: clamp_num_def)

text \<open>
  Claim C9, amended. \<open>scale\<close> never divides by zero: the divisor \<^verbatim>\<open>inMax - inMin || 1\<close> is
  never zero, whatever the difference is. When \<open>inMin = inMax = a\<close> is finite the divisor
  is \<open>1\<close>, and for every input \<open>v\<close> other than NaN, the infinities included, the clamp
  returns \<open>a\<close> and the interpolation factor is exactly \<open>0\<close>; \<open>scale v a a outLo outHi\<close> is
  then exactly \<open>outLo\<close>, for every double \<open>outLo\<close> and finite \<open>outHi\<close> such that
  \<^verbatim>\<open>outHi - outLo\<close> does not overflow.
\<close>

theorem scale_ieee_degenerate_range:
  assumes "v \<noteq> NaN" and "is_double lo" and "isFinite (ieee_sub (Num hi) (Num lo))"
  shows "js_or_num x (Num 1) \<noteq> Num 0 \<and>
         js_or_num (ieee_sub (Num a) (Num a)) (Num 1) = Num 1 \<and>
         ieee_div (ieee_sub (clamp_num v (Num a) (Num a)) (Num a))
                  (js_or_num (ieee_sub (Num a) (Num a)) (Num 1)) = Num 0 \<and>
         scale_ieee v (Num a) (Num a) (Num lo) (Num hi) = Num lo"
proof -
  have den: "js_or_num (ieee_sub (Num a) (Num a)) (Num 1) = Num 1"
    by (simp add: ieee_sub_Num to_double_0)
  have t: "ieee_div (ieee_sub (clamp_num v (Num a) (Num a)) (Num a))
                  (js_or_num (ieee_sub (Num a) (Num a)) (Num 1)) = Num 0"
    using assms(1) by (simp add: den clamp_num_degenerate ieee_sub_Num to_double_0 ieee_div_def)
  have "scale_ieee v (Num a) (Num a) (Num lo) (Num hi) = interpolate (Num 0) (Num lo) (Num hi)"
    unfolding scale_ieee_def interpolate_def by (simp only: t Let_def)
  also have "\<dots> = Num lo" using assms(2,3) by (rule interpolate_0)
  finally show ?thesis using den t js_or_num_nonzero [of x] by simp
qed

text \<open>
  The pulse interval over a degenerate range, at \<open>Infinity\<close> and at a finite value.
\<close>

theorem scale_ieee_degenerate_range_witness:
  "PosInf \<noteq> NaN \<and> is_double 1600 \<and> isFinite (ieee_sub (Num 420) (Num 1600)) \<and>
   scale_ieee PosInf (Num 50) (Num 50) (Num 1600) (Num 420) = Num 1600 \<and>
   Num 250 \<noteq> NaN \<and> scale_ieee (Num 250) (Num 50) (Num 50) (Num 1600) (Num 420) = Num 1600"
  using scale_ieee_degenerate_range [of PosInf 1600 420 NaN 50]
    scale_ieee_degenerate_range [of "Num 250" 1600 420 NaN 50]
  by (simp add: is_double_1600 isFinite_sub max_double_def)

subsection \<open>Values outside the range, infinite values, NaN\<close>

text \<open>
  Claim C8 says that every parameter value, NaN and the infinities included, is mapped as
  the nearest value of \<open>[0, 100]\<close> is. NaN is not: \<^verbatim>\<open>Math.min\<close> and \<^verbatim>\<open>Math.max\<close> return NaN
  on it, so the clamp and the mapped value are NaN, which is the mapped value of no
  number of the range (those are finite).
\<close>

theorem scale_num_NaN:
  "clamp_num NaN (Num 0) (Num 100) = NaN \<and>
   scale_num NaN (Num 0) (Num 100) (Num 1600) (Num 420) = NaN"
  by (simp add: scale_num_def clamp_num_def js_sub_def)

text \<open>
  Claim C8, amended. For every parameter value other than NaN (finite values outside
  \<open>[0, 100]\<close> and both infinities included) and all finite output bounds, the clamp yields
  the nearest value of \<open>[0, 100]\<close>, and the mapped value is the finite number that \<open>scale\<close>
  gives for that nearest value. The functions have no error result: nothing is raised.
\<close>

theorem scale_num_guarded:
  "v \<noteq> NaN \<Longrightarrow>
     clamp_num v (Num 0) (Num 100) = Num (nearest_in_range v) \<and>
     0 \<le> nearest_in_range v \<and> nearest_in_range v \<le> 100 \<and>
     scale_num v (Num 0) (Num 100) (Num lo) (Num hi) = Num (scale (nearest_in_range v) 0 100 lo hi)"
  by (cases v)
    (auto simp add: scale_num_def scale_def clamp_num_def clamp_def js_sub_def js_or_def
      diff_divide_distrib)

theorem scale_num_guarded_witness:
  "PosInf \<noteq> NaN \<and> clamp_num PosInf (Num 0) (Num 100) = Num 100 \<and>
   scale_num PosInf (Num 0) (Num 100) (Num 1600) (Num 420) = Num 420 \<and>
   Num 250 \<noteq> NaN \<and> scale_num (Num 250) (Num 0) (Num 100) (Num 1600) (Num 420) = Num 420 \<and>
   NegInf \<noteq> NaN \<and> scale_num NegInf (Num 0) (Num 100) (Num 1600) (Num 420) = Num 1600"
  using scale_num_guarded [of PosInf 1600 420] scale_num_guarded [of "Num 250" 1600 420]
    scale_num_guarded [of NegInf 1600 420]
  by (simp add: scale_def clamp_def js_or_def)

section \<open>Properties of the audio graph\<close>

text \<open>Unfolding the operations on the store; indices at or beyond the old nodes.\<close>

lemmas audio_defs = create_def createDelay_def map_node_def map_param_def set_value_def set_type_def
  connect_def node_start_def node_stop_def new_node_def param0_def
  automate_def cancel_def schedule_def cancelScheduledValues_def delayTime_maxValue_def delay_taps_def

lemma nth_append_ge: "length xs \<le> i \<Longrightarrow> (xs @ ys) ! i = ys ! (i - length xs)"
  by (simp add: nth_append)

lemma list_update_append_ge: "length xs \<le> i \<Longrightarrow> (xs @ ys)[i := v] = xs @ ys[i - length xs := v]"
  by (simp add: list_update_append)

subsection \<open>The reverb network\<close>

text \<open>
  Claim C4. On any context, \<^verbatim>\<open>createSimpleReverb\<close> adds eleven nodes and seventeen
  connections and nothing else: the input and output gains, exactly four delay lines with
  delay times 11, 17, 19 and 29 ms and a capacity of 250 ms each, four feedback gains of
  0.35 and one low-pass filter at 4500 Hz. The input feeds each of the four delay lines;
  each delay line feeds the shared filter and its own feedback gain, and that gain feeds
  the same delay line again and no other; the filter feeds the output. With \<open>n\<close> the
  number of nodes before the call, the nodes are \<open>n\<close> (input), \<open>n + 1\<close> (output),
  \<open>n + 2 .. n + 5\<close> (delay lines), \<open>n + 6 .. n + 9\<close> (their feedback gains) and \<open>n + 10\<close>
  (the filter).
\<close>

theorem reverb_network_topology:
  "createSimpleReverb c =
     (let n = length (nodes c)
      in (\<lparr>rv_input = n, rv_output = n + 1\<rparr>,
          c\<lparr>nodes := nodes c @
                [gain_node 1, gain_node 1,
                 delay_line 0.011 0.25, delay_line 0.017 0.25,
                 delay_line 0.019 0.25, delay_line 0.029 0.25,
                 gain_node 0.35, gain_node 0.35, gain_node 0.35, gain_node 0.35,
                 lowpass_filter 4500],
            connections := connections c @
                [(n, ToNode (n + 2)), (n, ToNode (n + 3)), (n, ToNode (n + 4)), (n, ToNode (n + 5)),
                 (n + 2, ToNode (n + 10)), (n + 2, ToNode (n + 6)), (n + 6, ToNode (n + 2)),
                 (n + 3, ToNode (n + 10)), (n + 3, ToNode (n + 7)), (n + 7, ToNode (n + 3)),
                 (n + 4, ToNode (n + 10)), (n + 4, ToNode (n + 8)), (n + 8, ToNode (n + 4)),
                 (n + 5, ToNode (n + 10)), (n + 5, ToNode (n + 9)), (n + 9, ToNode (n + 5)),
                 (n + 10, ToNode (n + 1))]\<rparr>))"
  by (simp add: createSimpleReverb_def audio_defs nth_append_ge list_update_append_ge
      gain_node_def delay_line_def lowpass_filter_def eval_nat_numeral Let_def)

subsection \<open>One-shot sources\<close>

text \<open>
  The draws of \<^verbatim>\<open>Math.random()\<close> lie in \<open>[0, 1)\<close>, so the pluck's octave is 0, 1 or 2 and
  its index into \<^verbatim>\<open>[1, 2, 6, 10]\<close> is in range.
\<close>

lemma unit_draw_range: "0 \<le> unit_draw r k \<and> unit_draw r k < 1"
proof -
  have "draws r k mod 2 ^ 53 < (2 ^ 53 :: nat)"
    by simp
  then have "real (draws r k mod 2 ^ 53) < 2 ^ 53"
    by (metis of_nat_less_iff of_nat_numeral of_nat_power)
  then show ?thesis
    by (simp add: unit_draw_def)
qed

lemma pluck_choices_in_range:
  "nat \<lfloor>unit_draw r k * 4\<rfloor> < 4 \<and> 0 \<le> \<lfloor>unit_draw r k * 3\<rfloor> \<and> \<lfloor>unit_draw r k * 3\<rfloor> < 3"
proof -
  have u: "0 \<le> unit_draw r k" "unit_draw r k < 1"
    using unit_draw_range by simp_all
  then have "\<lfloor>unit_draw r k * 4\<rfloor> < 4" "\<lfloor>unit_draw r k * 3\<rfloor> < 3" "0 \<le> \<lfloor>unit_draw r k * 3\<rfloor>"
    by (simp_all add: floor_less_iff)
  then show ?thesis by linarith
qed

text \<open>
  Claim C10. Every texture trigger and every pluck trigger returns normally and creates
  three nodes, the first of them its source (a buffer source for the texture, an
  oscillator for the pluck). The source is started at the trigger time, which is
  \<^verbatim>\<open>time || ctx.currentTime\<close>, and stopped exactly 2 seconds after it, whatever the
  tension is; the nodes that were there before are untouched.
\<close>

theorem one_shot_lifetime:
  "(\<exists>c' r'. texture_trigger tx time tens (c, r) = Normal () (c', r') \<and>
      take (length (nodes c)) (nodes c') = nodes c \<and>
      length (nodes c') = length (nodes c) + 3 \<and>
      kind (nodes c' ! length (nodes c)) = AudioBufferSourceNode \<and>
      started (nodes c' ! length (nodes c)) = Some (js_or time (currentTime c)) \<and>
      stopped (nodes c' ! length (nodes c)) = Some (js_or time (currentTime c) + 2)) \<and>
   (\<exists>c' r'. pluck_trigger pl time tens (c, r) = Normal () (c', r') \<and>
      take (length (nodes c)) (nodes c') = nodes c \<and>
      length (nodes c') = length (nodes c) + 3 \<and>
      kind (nodes c' ! length (nodes c)) = OscillatorNode \<and>
      started (nodes c' ! length (nodes c)) = Some (js_or time (currentTime c)) \<and>
      stopped (nodes c' ! length (nodes c)) = Some (js_or time (currentTime c) + 2))"
  apply (simp add: texture_trigger_def pluck_trigger_def Math_random_def audio_defs
      nth_append_ge list_update_append_ge)
  apply (simp add: Let_def)
  done

subsection \<open>The pulse trigger\<close>

lemma insert_event_last:
  "\<forall>x\<in>set xs. event_time x \<le> event_time e \<Longrightarrow> insert_event e xs = xs @ [e]"
  by (induction xs) auto

lemma map_of_map_entry:
  "map_of (map_entry name f ps) k = (if k = name then map_option f (map_of ps name) else map_of ps k)"
  by (induction ps) auto

lemma param_of_map_param:
  "param_of (map_param i name f c) j nm =
     (if j = i \<and> nm = name then map_option f (param_of c j nm) else param_of c j nm)"
  by (cases "j = i") (auto simp: param_of_def map_param_def map_node_def map_of_map_entry)

text \<open>
  What one trigger does to the two timelines: the events scheduled before the trigger
  time stay, the later ones go, and the new ones follow.
\<close>

lemma pulse_trigger_params:
  assumes "param_of c (p_osc p) ''frequency'' = Some f"
    and "param_of c (p_gain p) ''gain'' = Some g"
  shows "param_of (pulse_trigger p time c) (p_osc p) ''frequency'' =
           Some (f\<lparr>events := filter (\<lambda>e. event_time e < js_or time (currentTime c)) (events f) @
                   [SetValueAtTime 60 (js_or time (currentTime c)),
                    ExponentialRampToValueAtTime 40 (js_or time (currentTime c) + 0.09)]\<rparr>) \<and>
         param_of (pulse_trigger p time c) (p_gain p) ''gain'' =
           Some (g\<lparr>events := filter (\<lambda>e. event_time e < js_or time (currentTime c)) (events g) @
                   [SetValueAtTime 0 (js_or time (currentTime c)),
                    LinearRampToValueAtTime 0.6 (js_or time (currentTime c) + 0.01),
                    ExponentialRampToValueAtTime 0.0001 (js_or time (currentTime c) + 0.6)]\<rparr>)"
proof -
  define now where "now = js_or time (currentTime c)"
  have t: "currentTime (map_param i name h x) = currentTime x" for i name h x
    by (simp add: map_param_def map_node_def)
  have early: "\<forall>x\<in>set (filter (\<lambda>e. event_time e < now) xs). event_time x \<le> now + d"
    if "0 \<le> d" for xs d
    using that by auto
  show ?thesis
    using assms
    apply (simp add: pulse_trigger_def automate_def cancel_def param_of_map_param
        schedule_def cancelScheduledValues_def Let_def now_def [symmetric])
    apply (simp add: insert_event_last)
    done
qed

lemma createPulse_fresh:
  "createPulse (new_ctx 44100) 0 0 =
     Normal \<lparr>p_osc = 1, p_gain = 2\<rparr> (swallow (createPulse (new_ctx 44100) 0 0)) \<and>
   param_of (swallow (createPulse (new_ctx 44100) 0 0)) 1 ''frequency'' =
     Some \<lparr>pvalue = 50, events = []\<rparr> \<and>
   param_of (swallow (createPulse (new_ctx 44100) 0 0)) 2 ''gain'' =
     Some \<lparr>pvalue = 0, events = []\<rparr> \<and>
   currentTime (swallow (createPulse (new_ctx 44100) 0 0)) = 0"
  by (simp add: createPulse_def new_ctx_def audio_defs param_of_def)

text \<open>
  Claim C5 says that every trigger first cancels all automation scheduled before. It
  cancels what is scheduled at the trigger time or later only: on a new pulse layer,
  after a trigger at time 1 and a trigger at time 2 the gain timeline still holds the
  three events of the first trigger.
\<close>

theorem pulse_trigger_keeps_earlier_events:
  "param_of
     (pulse_trigger \<lparr>p_osc = 1, p_gain = 2\<rparr> 2
       (pulse_trigger \<lparr>p_osc = 1, p_gain = 2\<rparr> 1 (swallow (createPulse (new_ctx 44100) 0 0))))
     2 ''gain'' =
   Some \<lparr>pvalue = 0,
         events = [SetValueAtTime 0 1, LinearRampToValueAtTime 0.6 1.01,
                   ExponentialRampToValueAtTime 0.0001 1.6,
                   SetValueAtTime 0 2, LinearRampToValueAtTime 0.6 2.01,
                   ExponentialRampToValueAtTime 0.0001 2.6]\<rparr>"
proof -
  define c0 where "c0 = swallow (createPulse (new_ctx 44100) 0 0)"
  define P where "P = \<lparr>p_osc = 1, p_gain = 2\<rparr>"
  have g0: "param_of c0 (p_gain P) ''gain'' = Some \<lparr>pvalue = 0, events = []\<rparr>"
    and f0: "param_of c0 (p_osc P) ''frequency'' = Some \<lparr>pvalue = 50, events = []\<rparr>"
    using createPulse_fresh by (simp_all add: c0_def P_def)
  note a1 = pulse_trigger_params [OF f0 g0, of 1]
  have g1: "param_of (pulse_trigger P 1 c0) (p_gain P) ''gain'' =
      Some \<lparr>pvalue = 0, events = [SetValueAtTime 0 1, LinearRampToValueAtTime 0.6 1.01,
                   ExponentialRampToValueAtTime 0.0001 1.6]\<rparr>"
    and f1: "param_of (pulse_trigger P 1 c0) (p_osc P) ''frequency'' =
      Some \<lparr>pvalue = 50, events = [SetValueAtTime 60 1, ExponentialRampToValueAtTime 40 1.09]\<rparr>"
    using a1 by (simp_all add: js_or_def)
  have "param_of (pulse_trigger P 2 (pulse_trigger P 1 c0)) (p_gain P) ''gain'' =
      Some \<lparr>pvalue = 0,
         events = [SetValueAtTime 0 1, LinearRampToValueAtTime 0.6 1.01,
                   ExponentialRampToValueAtTime 0.0001 1.6,
                   SetValueAtTime 0 2, LinearRampToValueAtTime 0.6 2.01,
                   ExponentialRampToValueAtTime 0.0001 2.6]\<rparr>"
    using pulse_trigger_params [OF f1 g1, of 2] by (simp add: js_or_def)
  then show ?thesis
    by (simp add: c0_def P_def)
qed

text \<open>
  Claim C5, amended. Every call of the pulse trigger, with \<open>now\<close> the trigger time
  \<^verbatim>\<open>time || ctx.currentTime\<close>, first cancels the frequency and gain automation scheduled at
  \<open>now\<close> or later (events before \<open>now\<close> are kept), then schedules the frequency at 60 Hz at
  \<open>now\<close> with an exponential ramp to 40 Hz at \<open>now + 0.09\<close>, and the gain at 0 at \<open>now\<close> with
  a linear ramp to 0.6 at \<open>now + 0.01\<close> and an exponential ramp to 0.0001 at \<open>now + 0.6\<close>.
  From \<open>now\<close> on the timelines hold the events of the last trigger only.
\<close>

theorem pulse_trigger_automation:
  assumes "param_of c (p_osc p) ''frequency'' = Some f"
    and "param_of c (p_gain p) ''gain'' = Some g"
  shows "param_of (pulse_trigger p time c) (p_osc p) ''frequency'' =
           Some (f\<lparr>events := filter (\<lambda>e. event_time e < js_or time (currentTime c)) (events f) @
                   [SetValueAtTime 60 (js_or time (currentTime c)),
                    ExponentialRampToValueAtTime 40 (js_or time (currentTime c) + 0.09)]\<rparr>) \<and>
         param_of (pulse_trigger p time c) (p_gain p) ''gain'' =
           Some (g\<lparr>events := filter (\<lambda>e. event_time e < js_or time (currentTime c)) (events g) @
                   [SetValueAtTime 0 (js_or time (currentTime c)),
                    LinearRampToValueAtTime 0.6 (js_or time (currentTime c) + 0.01),
                    ExponentialRampToValueAtTime 0.0001 (js_or time (currentTime c) + 0.6)]\<rparr>)"
  using assms by (rule pulse_trigger_params)

text \<open>A trigger at time 3 on a new pulse layer.\<close>

theorem pulse_trigger_automation_witness:
  "param_of (swallow (createPulse (new_ctx 44100) 0 0)) (p_osc \<lparr>p_osc = 1, p_gain = 2\<rparr>) ''frequency'' =
     Some \<lparr>pvalue = 50, events = []\<rparr> \<and>
   param_of (swallow (createPulse (new_ctx 44100) 0 0)) (p_gain \<lparr>p_osc = 1, p_gain = 2\<rparr>) ''gain'' =
     Some \<lparr>pvalue = 0, events = []\<rparr> \<and>
   param_of (pulse_trigger \<lparr>p_osc = 1, p_gain = 2\<rparr> 3 (swallow (createPulse (new_ctx 44100) 0 0)))
       1 ''frequency'' =
     Some \<lparr>pvalue = 50, events = [SetValueAtTime 60 3, ExponentialRampToValueAtTime 40 3.09]\<rparr> \<and>
   param_of (pulse_trigger \<lparr>p_osc = 1, p_gain = 2\<rparr> 3 (swallow (createPulse (new_ctx 44100) 0 0)))
       2 ''gain'' =
     Some \<lparr>pvalue = 0, events = [SetValueAtTime 0 3, LinearRampToValueAtTime 0.6 3.01,
                                  ExponentialRampToValueAtTime 0.0001 3.6]\<rparr>"
proof -
  have f: "param_of (swallow (createPulse (new_ctx 44100) 0 0)) (p_osc \<lparr>p_osc = 1, p_gain = 2\<rparr>)
      ''frequency'' = Some \<lparr>pvalue = 50, events = []\<rparr>"
    and g: "param_of (swallow (createPulse (new_ctx 44100) 0 0)) (p_gain \<lparr>p_osc = 1, p_gain = 2\<rparr>)
      ''gain'' = Some \<lparr>pvalue = 0, events = []\<rparr>"
    using createPulse_fresh by simp_all
  show ?thesis
    using pulse_trigger_automation [OF f g, of 3] f g by (simp add: js_or_def)
qed

subsection \<open>Start and stop of the drone\<close>

lemma drone_stop_cases:
  "\<exists>c'. drone_stop (d, c) = Normal () (d\<lparr>running := False\<rparr>, c') \<and> closed c' = closed c"
  by (simp add: drone_stop_def on_ctx_def node_stop_def map_node_def)

lemma drone_stop_idle: "\<not> running d \<Longrightarrow> drone_stop (d, c) = Normal () (d, c)"
  by (simp add: drone_stop_def)

lemma drone_start_busy: "running d \<Longrightarrow> drone_start (d, c) = Normal () (d, c)"
  by (simp add: drone_start_def)

lemma drone_start_cases:
  "\<exists>c'. drone_start (d, c) = Normal () (d\<lparr>running := True\<rparr>, c') \<or>
        (\<exists>x. drone_start (d, c) = Thrown x (d\<lparr>running := True\<rparr>, c'))"
  by (simp add: drone_start_def on_ctx_def node_start_def map_node_def)

lemma sessions_fold_clearInterval: "sessions (fold clearInterval ts e) = sessions e"
  by (induction ts arbitrary: e) (simp_all add: clearInterval_def)

lemma teardown_session:
  "k < length (sessions e) \<Longrightarrow>
     \<exists>c'. sessions (teardown k e) ! k =
       (sessions e ! k)\<lparr>s_drone := (s_drone (sessions e ! k))\<lparr>running := False\<rparr>, s_ctx := c'\<rparr> \<and> closed c'"
proof -
  assume k: "k < length (sessions e)"
  obtain c1 where c1: "drone_stop (s_drone (sessions e ! k), s_ctx (sessions e ! k)) =
      Normal () ((s_drone (sessions e ! k))\<lparr>running := False\<rparr>, c1)"
    using drone_stop_cases by blast
  have "closed (swallow (ctx_close c1))"
    by (simp add: ctx_close_def)
  with k c1 show ?thesis
    by (intro exI [of _ "swallow (ctx_close c1)"])
      (simp add: teardown_def log_def update_session_def sessions_fold_clearInterval Let_def)
qed

text \<open>
  Claim C7. \<^verbatim>\<open>start()\<close> on a running drone changes nothing and returns normally, and
  after a first \<^verbatim>\<open>start()\<close>, however it ended, a second one is such a call. \<^verbatim>\<open>stop()\<close> on
  a drone that is not running changes nothing; in every state of the drone and of the
  context (closed or not) \<^verbatim>\<open>stop()\<close> returns normally, and a second \<^verbatim>\<open>stop()\<close> after it
  changes nothing. After the teardown of a session its context is closed and \<^verbatim>\<open>stop()\<close>
  on its drone changes nothing and returns normally.
\<close>

theorem drone_start_stop_idempotent:
  "(running d \<longrightarrow> drone_start (d, c) = Normal () (d, c)) \<and>
   (\<exists>s. (drone_start (d, c) = Normal () s \<or> (\<exists>x. drone_start (d, c) = Thrown x s)) \<and>
        drone_start s = Normal () s) \<and>
   (\<not> running d \<longrightarrow> drone_stop (d, c) = Normal () (d, c)) \<and>
   (\<exists>s. drone_stop (d, c) = Normal () s \<and> drone_stop s = Normal () s) \<and>
   (k < length (sessions e) \<longrightarrow>
      closed (s_ctx (sessions (teardown k e) ! k)) \<and>
      drone_stop (s_drone (sessions (teardown k e) ! k), s_ctx (sessions (teardown k e) ! k)) =
        Normal () (s_drone (sessions (teardown k e) ! k), s_ctx (sessions (teardown k e) ! k)))"
proof (intro conjI impI)
  show "running d \<Longrightarrow> drone_start (d, c) = Normal () (d, c)"
    by (rule drone_start_busy)
  show "\<not> running d \<Longrightarrow> drone_stop (d, c) = Normal () (d, c)"
    by (rule drone_stop_idle)
  obtain c1 where "drone_start (d, c) = Normal () (d\<lparr>running := True\<rparr>, c1) \<or>
        (\<exists>x. drone_start (d, c) = Thrown x (d\<lparr>running := True\<rparr>, c1))"
    using drone_start_cases by blast
  moreover have "drone_start (d\<lparr>running := True\<rparr>, c1) = Normal () (d\<lparr>running := True\<rparr>, c1)"
    by (simp add: drone_start_busy)
  ultimately show "\<exists>s. (drone_start (d, c) = Normal () s \<or> (\<exists>x. drone_start (d, c) = Thrown x s)) \<and>
        drone_start s = Normal () s"
    by blast
  obtain c2 where "drone_stop (d, c) = Normal () (d\<lparr>running := False\<rparr>, c2)"
    using drone_stop_cases by blast
  moreover have "drone_stop (d\<lparr>running := False\<rparr>, c2) = Normal () (d\<lparr>running := False\<rparr>, c2)"
    by (simp add: drone_stop_idle)
  ultimately show "\<exists>s. drone_stop (d, c) = Normal () s \<and> drone_stop s = Normal () s"
    by blast
next
  assume "k < length (sessions e)"
  then obtain c' where x: "sessions (teardown k e) ! k =
       (sessions e ! k)\<lparr>s_drone := (s_drone (sessions e ! k))\<lparr>running := False\<rparr>, s_ctx := c'\<rparr>"
      and "closed c'"
    using teardown_session by blast
  then show "closed (s_ctx (sessions (teardown k e) ! k))"
    by simp
  show "drone_stop (s_drone (sessions (teardown k e) ! k), s_ctx (sessions (teardown k e) ! k)) =
        Normal () (s_drone (sessions (teardown k e) ! k), s_ctx (sessions (teardown k e) ! k))"
    by (simp add: x drone_stop_idle)
qed

section \<open>Properties of the component\<close>

subsection \<open>What a session start sets up\<close>

lemma start_session_fields:
  "\<exists>e'. start_session p e = Normal (Some (length (sessions e))) e' \<and>
      intervals e' = intervals e @
             [\<lparr>timer_id = next_timer e, delay_ms = scale (pulse p) 0 100 1600 420,
               due_ms = clock_ms e + scale (pulse p) 0 100 1600 420,
               callback = PulseTimer (length (sessions e))\<rparr>,
              \<lparr>timer_id = Suc (next_timer e), delay_ms = scale (tension p) 0 100 4200 1300,
               due_ms = clock_ms e + scale (tension p) 0 100 4200 1300,
               callback = NoiseTimer (length (sessions e))\<rparr>,
              \<lparr>timer_id = Suc (Suc (next_timer e)), delay_ms = 2000,
               due_ms = clock_ms e + 2000, callback = PluckTimer (length (sessions e))\<rparr>] \<and>
      next_timer e' = Suc (Suc (Suc (next_timer e))) \<and>
      ctxRef e' = Some (length (sessions e)) \<and> nodesRef e' = Some (length (sessions e)) \<and>
      timersRef e' = [next_timer e, Suc (next_timer e), Suc (Suc (next_timer e))] \<and>
      cleanup e' = cleanup e \<and> rendered e' = rendered e \<and> trace e' = trace e \<and>
      uncaught e' = uncaught e \<and> clock_ms e' = clock_ms e \<and> deviceRate e' = deviceRate e \<and>
      length (sessions e') = Suc (length (sessions e)) \<and>
      take (length (sessions e)) (sessions e') = sessions e \<and>
      s_tension (sessions e' ! length (sessions e)) = tension p \<and>
      running (s_drone (sessions e' ! length (sessions e))) \<and>
      \<not> closed (s_ctx (sessions e' ! length (sessions e))) \<and>
      currentTime (s_ctx (sessions e' ! length (sessions e))) = 0 \<and>
      param_of (s_ctx (sessions e' ! length (sessions e)))
         (d_gain (s_drone (sessions e' ! length (sessions e)))) ''gain'' =
        Some \<lparr>pvalue = 0.14, events = []\<rparr> \<and>
      param_of (s_ctx (sessions e' ! length (sessions e)))
         (d_lpf (s_drone (sessions e' ! length (sessions e)))) ''frequency'' =
        Some \<lparr>pvalue = 400, events = []\<rparr> \<and>
      param_of (s_ctx (sessions e' ! length (sessions e)))
         (s_masterGain (sessions e' ! length (sessions e))) ''gain'' =
        Some \<lparr>pvalue = dbToGain (scale (volume p) 0 100 (- 36) (- 3)), events = []\<rparr> \<and>
      param_of (s_ctx (sessions e' ! length (sessions e)))
         (s_reverbWet (sessions e' ! length (sessions e))) ''gain'' =
        Some \<lparr>pvalue = scale (reverb p) 0 100 0.05 0.5, events = []\<rparr>"
  apply (simp add: start_session_def createSimpleReverb_def createDrone_def createPulse_def
      createTexture_def createPluck_def drone_start_def setInterval_def update_session_def
      new_ctx_def destination_def on_ctx_def audio_defs nth_append_ge list_update_append_ge)
  apply (simp add: Let_def)
  apply (simp add: param_of_def)
  done

subsection \<open>What leaves the timers alone\<close>

lemma same_control_refl: "same_control e e"
  by (simp add: same_control_def)

lemma same_control_trans: "same_control a b \<Longrightarrow> same_control b c \<Longrightarrow> same_control a c"
  by (simp add: same_control_def)

lemma advance_clock_control: "same_control e (advance_clock t e) \<and> trace (advance_clock t e) = trace e"
  by (simp add: same_control_def advance_clock_def)

lemma effect_params_control:
  "same_control e (report (effect_params p e)) \<and> trace (report (effect_params p e)) = trace e"
  by (simp add: same_control_def effect_params_def report_def update_session_def Let_def
      split: option.splits)

lemma in_session_control:
  "same_control e (report (in_session k f e)) \<and> trace (report (in_session k f e)) = trace e"
  by (simp add: same_control_def in_session_def report_def update_session_def Let_def
      split: outcome.splits prod.splits)

lemma run_callback_control: "same_control e (report (run_callback cb e))"
  by (cases cb)
    (simp_all add: same_control_def report_def in_session_def update_session_def log_def
      Let_def Math_random_def split: outcome.splits prod.splits)

lemma run_callback_trace:
  "j \<noteq> callback_session cb \<Longrightarrow>
     filter (is_trigger_of j) (trace (report (run_callback cb e))) = filter (is_trigger_of j) (trace e)"
  by (cases cb)
    (simp_all add: report_def in_session_def update_session_def log_def
      Let_def Math_random_def split: outcome.splits prod.splits)

lemma fold_clearInterval_fields:
  "intervals (fold clearInterval ts e) = filter (\<lambda>i. timer_id i \<notin> set ts) (intervals e) \<and>
   trace (fold clearInterval ts e) = trace e @ map ClearInterval ts \<and>
   sessions (fold clearInterval ts e) = sessions e \<and>
   cleanup (fold clearInterval ts e) = cleanup e \<and>
   rendered (fold clearInterval ts e) = rendered e"
proof (induction ts arbitrary: e)
  case Nil
  show ?case by simp
next
  case (Cons t ts)
  show ?case
    by (simp add: Cons.IH) (simp add: clearInterval_def conj_commute)
qed

lemma teardown_fields:
  "intervals (teardown k e) = filter (\<lambda>i. timer_id i \<notin> set (timersRef e)) (intervals e) \<and>
   timersRef (teardown k e) = [] \<and>
   trace (teardown k e) = trace e @ map ClearInterval (timersRef e) @ [DroneStop k, CtxClose k] \<and>
   length (sessions (teardown k e)) = length (sessions e) \<and>
   cleanup (teardown k e) = cleanup e \<and> rendered (teardown k e) = rendered e \<and>
   nodesRef (teardown k e) = None \<and> ctxRef (teardown k e) = None"
  by (simp add: teardown_def log_def update_session_def fold_clearInterval_fields Let_def
      split: prod.splits)

lemma run_cleanup_fields:
  assumes "timers_owned e"
  shows "intervals (run_cleanup e) = [] \<and> timersRef (run_cleanup e) = [] \<and>
         cleanup (run_cleanup e) = None \<and> rendered (run_cleanup e) = rendered e \<and>
         length (sessions (run_cleanup e)) = length (sessions e)"
proof (cases "cleanup e")
  case None
  with assms show ?thesis
    by (simp add: run_cleanup_def timers_owned_def)
next
  case (Some k)
  with assms have ids: "map timer_id (intervals e) = timersRef e"
    by (simp add: timers_owned_def)
  have "filter (\<lambda>i. timer_id i \<notin> set (map timer_id (intervals e))) (intervals e) = []"
    by (simp add: filter_empty_conv)
  with ids Some show ?thesis
    by (simp add: run_cleanup_def teardown_fields)
qed

lemma run_session_effect_stopped:
  "\<not> isRunning p \<Longrightarrow> run_session_effect p e = e\<lparr>cleanup := None\<rparr>"
  by (simp add: run_session_effect_def effect_session_def)

lemma run_session_effect_started:
  assumes "isRunning p"
  shows "\<exists>e'. run_session_effect p e = e'\<lparr>cleanup := Some (length (sessions e))\<rparr> \<and>
          start_session p e = Normal (Some (length (sessions e))) e'"
  using assms start_session_fields [of p e]
  by (auto simp: run_session_effect_def effect_session_def)

subsection \<open>The invariant\<close>

lemma timers_owned_control:
  "timers_owned e \<Longrightarrow> same_control e e' \<Longrightarrow> timers_owned e'"
  by (auto simp: timers_owned_def same_control_def split: option.splits)

lemma timers_owned_rendered:
  "timers_owned e \<Longrightarrow> rendered e = Some q \<Longrightarrow> isRunning q = isRunning p \<Longrightarrow>
     timers_owned (e\<lparr>rendered := Some p\<rparr>)"
  by (simp add: timers_owned_def split: option.splits)

lemma timers_owned_render:
  assumes "timers_owned e"
  shows "timers_owned (render p e)"
proof (cases "session_deps_changed (rendered e) p")
  case False
  then obtain q where q: "rendered e = Some q" "isRunning q = isRunning p"
    by (auto simp: session_deps_changed_def split: option.splits)
  define e1 where "e1 = (if params_deps_changed (rendered e) p then report (effect_params p e) else e)"
  have "same_control e e1"
    using effect_params_control [of e p] by (simp add: e1_def same_control_refl)
  with assms have "timers_owned e1" "rendered e1 = Some q"
    using q by (auto intro: timers_owned_control simp: same_control_def)
  then have "timers_owned (e1\<lparr>rendered := Some p\<rparr>)"
    using q by (intro timers_owned_rendered [where q = q]) simp_all
  with False show ?thesis
    by (auto simp: render_def e1_def Let_def split: if_splits)
next
  case True
  define e1 where "e1 = run_cleanup e"
  have f1: "intervals e1 = []" "timersRef e1 = []" "cleanup e1 = None"
    using run_cleanup_fields [OF assms] by (simp_all add: e1_def)
  define e2 where "e2 = run_session_effect p e1"
  define e3 where "e3 = (if params_deps_changed (rendered e) p then report (effect_params p e2) else e2)"
  have c23: "same_control e2 e3"
    using effect_params_control [of e2 p] by (simp add: e3_def same_control_refl)
  have r: "render p e = e3\<lparr>rendered := Some p\<rparr>"
    using True by (simp add: render_def e1_def e2_def e3_def Let_def)
  show ?thesis
  proof (cases "isRunning p")
    case False
    then have "e2 = e1\<lparr>cleanup := None\<rparr>"
      by (simp add: e2_def run_session_effect_stopped)
    with f1 c23 False show ?thesis
      by (simp add: r timers_owned_def same_control_def)
  next
    case True
    then obtain e' where e': "e2 = e'\<lparr>cleanup := Some (length (sessions e1))\<rparr>"
        "start_session p e1 = Normal (Some (length (sessions e1))) e'"
      using run_session_effect_started [of p e1] by (auto simp: e2_def)
    with start_session_fields [of p e1] f1
    have "intervals e' = [\<lparr>timer_id = next_timer e1, delay_ms = scale (pulse p) 0 100 1600 420,
               due_ms = clock_ms e1 + scale (pulse p) 0 100 1600 420,
               callback = PulseTimer (length (sessions e1))\<rparr>,
              \<lparr>timer_id = Suc (next_timer e1), delay_ms = scale (tension p) 0 100 4200 1300,
               due_ms = clock_ms e1 + scale (tension p) 0 100 4200 1300,
               callback = NoiseTimer (length (sessions e1))\<rparr>,
              \<lparr>timer_id = Suc (Suc (next_timer e1)), delay_ms = 2000,
               due_ms = clock_ms e1 + 2000, callback = PluckTimer (length (sessions e1))\<rparr>]"
      "timersRef e' = [next_timer e1, Suc (next_timer e1), Suc (Suc (next_timer e1))]"
      "length (sessions e') = Suc (length (sessions e1))"
      by auto
    with e' c23 True show ?thesis
      by (simp add: r timers_owned_def same_control_def)
  qed
qed

lemma due_again_keeps:
  "map (timer_id \<circ> (\<lambda>j. if timer_id j = t then j\<lparr>due_ms := due_ms j + delay_ms j\<rparr> else j)) xs =
     map timer_id xs"
  "map (callback \<circ> (\<lambda>j. if timer_id j = t then j\<lparr>due_ms := due_ms j + delay_ms j\<rparr> else j)) xs =
     map callback xs"
  "map (delay_ms \<circ> (\<lambda>j. if timer_id j = t then j\<lparr>due_ms := due_ms j + delay_ms j\<rparr> else j)) xs =
     map delay_ms xs"
  by (induction xs) auto

lemma timers_owned_fire_next:
  assumes "timers_owned e"
  shows "timers_owned (fire_next e)"
proof (cases "earliest (intervals e)")
  case None
  with assms show ?thesis by (simp add: fire_next_def)
next
  case (Some i)
  define e1 where "e1 = report (run_callback (callback i) (advance_clock (due_ms i) e))"
  have "same_control e e1"
    unfolding e1_def
    using advance_clock_control run_callback_control same_control_trans by blast
  with assms have "timers_owned e1"
    by (rule timers_owned_control)
  then have "timers_owned (e1\<lparr>intervals := map (\<lambda>j. if timer_id j = timer_id i
      then j\<lparr>due_ms := due_ms j + delay_ms j\<rparr> else j) (intervals e1)\<rparr>)"
    by (simp add: timers_owned_def due_again_keeps split: option.splits)
  with Some show ?thesis
    by (simp add: fire_next_def e1_def Let_def)
qed

lemma time_passes_control:
  "same_control e (time_passes d e) \<and> trace (time_passes d e) = trace e"
  using advance_clock_control by (simp add: time_passes_def split: option.splits)

lemma timers_owned_step:
  assumes "timers_owned e"
  shows "timers_owned (step ev e)"
proof (cases ev)
  case (Render p)
  with assms show ?thesis by (simp add: timers_owned_render)
next
  case Unmount
  with run_cleanup_fields [OF assms] show ?thesis
    by (simp add: unmount_def timers_owned_def)
next
  case TimerFires
  with assms show ?thesis by (simp add: timers_owned_fire_next)
next
  case (TimePasses d)
  have "same_control e (time_passes d e)"
    using advance_clock_control by (simp add: time_passes_def split: option.splits)
  with assms TimePasses show ?thesis
    by (auto intro: timers_owned_control)
qed

lemma run_snoc: "run (evs @ [ev]) e = step ev (run evs e)"
  by (simp add: run_def)

lemma timers_owned_run: "timers_owned e \<Longrightarrow> timers_owned (run evs e)"
  by (induction evs rule: rev_induct) (simp_all add: run_snoc timers_owned_step, simp add: run_def)

lemma timers_owned_initial: "timers_owned (initial rate ds)"
  by (simp add: timers_owned_def initial_def)

lemma running_session:
  assumes "timers_owned e" and "cleanup e = Some k"
  shows "Suc k = length (sessions e)"
    and "\<exists>a b c. timersRef e = [a, b, c] \<and> map timer_id (intervals e) = [a, b, c]"
    and "map callback (intervals e) = [PulseTimer k, NoiseTimer k, PluckTimer k]"
    and "\<exists>q. rendered e = Some q \<and> isRunning q"
proof -
  from assms have ids: "map timer_id (intervals e) = timersRef e"
    and cbs: "map callback (intervals e) = [PulseTimer k, NoiseTimer k, PluckTimer k]"
    and len: "Suc k = length (sessions e)"
    and r: "case rendered e of None \<Rightarrow> False | Some q \<Rightarrow> isRunning q"
    by (simp_all add: timers_owned_def)
  from cbs have "length (intervals e) = 3"
    by (metis length_map length_Cons list.size(3) numeral_3_eq_3)
  with ids have "length (timersRef e) = 3"
    by (metis length_map)
  then obtain a b c where "timersRef e = [a, b, c]"
    by (auto simp: length_Suc_conv eval_nat_numeral)
  with ids show "\<exists>a b c. timersRef e = [a, b, c] \<and> map timer_id (intervals e) = [a, b, c]"
    by simp
  from r show "\<exists>q. rendered e = Some q \<and> isRunning q"
    by (cases "rendered e") simp_all
  from cbs show "map callback (intervals e) = [PulseTimer k, NoiseTimer k, PluckTimer k]" .
  from len show "Suc k = length (sessions e)" .
qed

subsection \<open>Renders and firings, field by field\<close>

lemma run_cleanup_trace:
  "trace (run_cleanup e) = trace e @
     (case cleanup e of None \<Rightarrow> []
      | Some k \<Rightarrow> map ClearInterval (timersRef e) @ [DroneStop k, CtxClose k]) \<and>
   length (sessions (run_cleanup e)) = length (sessions e) \<and>
   rendered (run_cleanup e) = rendered e \<and>
   nodesRef (run_cleanup e) = (case cleanup e of None \<Rightarrow> nodesRef e | Some k \<Rightarrow> None)"
  by (simp add: run_cleanup_def teardown_fields split: option.splits)

lemma run_session_effect_fields:
  "trace (run_session_effect p e) = trace e \<and>
   cleanup (run_session_effect p e) = (if isRunning p then Some (length (sessions e)) else None) \<and>
   length (sessions (run_session_effect p e)) =
     (if isRunning p then Suc (length (sessions e)) else length (sessions e))"
proof (cases "isRunning p")
  case False
  then show ?thesis by (simp add: run_session_effect_stopped)
next
  case True
  then obtain e' where "run_session_effect p e = e'\<lparr>cleanup := Some (length (sessions e))\<rparr>"
      "start_session p e = Normal (Some (length (sessions e))) e'"
    using run_session_effect_started by blast
  with start_session_fields [of p e] True show ?thesis
    by auto
qed

lemma render_fields:
  "trace (render p e) = trace e @
     (if session_deps_changed (rendered e) p
      then (case cleanup e of None \<Rightarrow> []
            | Some k \<Rightarrow> map ClearInterval (timersRef e) @ [DroneStop k, CtxClose k])
      else []) \<and>
   cleanup (render p e) =
     (if session_deps_changed (rendered e) p
      then (if isRunning p then Some (length (sessions e)) else None)
      else cleanup e) \<and>
   length (sessions (render p e)) =
     (if session_deps_changed (rendered e) p \<and> isRunning p
      then Suc (length (sessions e)) else length (sessions e))"
proof -
  have a: "trace (report (effect_params p x)) = trace x"
    "cleanup (report (effect_params p x)) = cleanup x"
    "length (sessions (report (effect_params p x))) = length (sessions x)" for x
    using effect_params_control [of x p] by (simp_all add: same_control_def)
  show ?thesis
    by (simp add: render_def Let_def a run_session_effect_fields run_cleanup_trace)
qed

lemma rendered_render: "rendered (render p e) = Some p"
  by (simp add: render_def Let_def)

lemma render_running:
  assumes "rendered e = Some q" and "isRunning q = isRunning p"
  shows "intervals (render p e) = intervals e \<and> timersRef (render p e) = timersRef e \<and>
         cleanup (render p e) = cleanup e \<and> length (sessions (render p e)) = length (sessions e) \<and>
         trace (render p e) = trace e"
proof -
  from assms have "\<not> session_deps_changed (rendered e) p"
    by (simp add: session_deps_changed_def)
  then show ?thesis
    using effect_params_control [of e p]
    by (simp add: render_def Let_def same_control_def)
qed

lemma render_start:
  assumes "cleanup e = None" and "session_deps_changed (rendered e) p" and "isRunning p"
  shows "cleanup (render p e) = Some (length (sessions e)) \<and>
         map (\<lambda>i. (callback i, delay_ms i, due_ms i)) (intervals (render p e)) =
           map (\<lambda>i. (callback i, delay_ms i, due_ms i)) (intervals e) @
           [(PulseTimer (length (sessions e)), scale (pulse p) 0 100 1600 420,
               clock_ms e + scale (pulse p) 0 100 1600 420),
            (NoiseTimer (length (sessions e)), scale (tension p) 0 100 4200 1300,
               clock_ms e + scale (tension p) 0 100 4200 1300),
            (PluckTimer (length (sessions e)), 2000, clock_ms e + 2000)]"
proof -
  have e1: "run_cleanup e = e"
    using assms(1) by (simp add: run_cleanup_def)
  obtain e' where e': "run_session_effect p e = e'\<lparr>cleanup := Some (length (sessions e))\<rparr>"
      "start_session p e = Normal (Some (length (sessions e))) e'"
    using run_session_effect_started [OF assms(3)] by blast
  define e2 where "e2 = e'\<lparr>cleanup := Some (length (sessions e))\<rparr>"
  define e3 where "e3 = (if params_deps_changed (rendered e) p then report (effect_params p e2) else e2)"
  have "same_control e2 e3"
    using effect_params_control [of e2 p] by (simp add: e3_def same_control_refl)
  then have "intervals e3 = intervals e'" "cleanup e3 = Some (length (sessions e))"
    by (simp_all add: same_control_def e2_def)
  moreover have "render p e = e3\<lparr>rendered := Some p\<rparr>"
    using assms(2) e1 e'(1) by (simp add: render_def Let_def e3_def e2_def)
  ultimately show ?thesis
    using start_session_fields [of p e] e'(2) by auto
qed

lemma render_start_only:
  assumes "cleanup e = None" and "rendered e = Some q" and "\<not> isRunning q" and "isRunning p"
    and "tension q = tension p" and "reverb q = reverb p" and "volume q = volume p"
  shows "\<exists>e'. start_session p e = Normal (Some (length (sessions e))) e' \<and>
           render p e = e'\<lparr>cleanup := Some (length (sessions e)), rendered := Some p\<rparr>"
proof -
  obtain e' where e': "run_session_effect p e = e'\<lparr>cleanup := Some (length (sessions e))\<rparr>"
      "start_session p e = Normal (Some (length (sessions e))) e'"
    using run_session_effect_started [OF assms(4)] by blast
  have "run_cleanup e = e"
    using assms(1) by (simp add: run_cleanup_def)
  with assms e' have "render p e = e'\<lparr>cleanup := Some (length (sessions e)), rendered := Some p\<rparr>"
    by (simp add: render_def Let_def session_deps_changed_def params_deps_changed_def)
  with e'(2) show ?thesis by blast
qed

lemma earliest_member: "earliest xs = Some i \<Longrightarrow> i \<in> set xs"
  by (induction xs arbitrary: i) (auto split: option.splits if_splits)

lemma fire_next_trace:
  assumes "timers_owned e" and "cleanup e \<noteq> Some k"
  shows "filter (is_trigger_of k) (trace (fire_next e)) = filter (is_trigger_of k) (trace e)"
proof (cases "earliest (intervals e)")
  case None
  then show ?thesis by (simp add: fire_next_def)
next
  case (Some i)
  then have i: "i \<in> set (intervals e)"
    by (rule earliest_member)
  then obtain k' where k': "cleanup e = Some k'"
    using assms(1) by (cases "cleanup e") (auto simp: timers_owned_def)
  with assms(1) have "map callback (intervals e) = [PulseTimer k', NoiseTimer k', PluckTimer k']"
    by (simp add: timers_owned_def)
  with i have "callback i \<in> set [PulseTimer k', NoiseTimer k', PluckTimer k']"
    by (metis image_eqI set_map)
  then have "callback_session (callback i) = k'"
    by auto
  with k' assms(2) have "k \<noteq> callback_session (callback i)"
    by auto
  then have "filter (is_trigger_of k)
      (trace (report (run_callback (callback i) (advance_clock (due_ms i) e)))) =
      filter (is_trigger_of k) (trace (advance_clock (due_ms i) e))"
    by (rule run_callback_trace)
  with Some show ?thesis
    using advance_clock_control [of e "due_ms i"]
    by (simp add: fire_next_def Let_def)
qed

lemma fire_next_control: "cleanup (fire_next e) = cleanup e \<and>
    length (sessions (fire_next e)) = length (sessions e)"
proof (cases "earliest (intervals e)")
  case None
  then show ?thesis by (simp add: fire_next_def)
next
  case (Some i)
  have "same_control e (report (run_callback (callback i) (advance_clock (due_ms i) e)))"
    using advance_clock_control run_callback_control same_control_trans by blast
  with Some show ?thesis
    by (simp add: fire_next_def Let_def same_control_def)
qed

lemma fire_next_intervals:
  "earliest (intervals e) = Some i \<Longrightarrow>
     intervals (fire_next e) =
       map (\<lambda>j. if timer_id j = timer_id i then j\<lparr>due_ms := due_ms j + delay_ms j\<rparr> else j)
         (intervals e)"
proof -
  assume i: "earliest (intervals e) = Some i"
  have "same_control e (report (run_callback (callback i) (advance_clock (due_ms i) e)))"
    using advance_clock_control run_callback_control same_control_trans by blast
  with i show ?thesis
    by (simp add: fire_next_def Let_def same_control_def)
qed

lemma fire_next_delays:
  "map (\<lambda>i. (callback i, delay_ms i)) (intervals (fire_next e)) =
     map (\<lambda>i. (callback i, delay_ms i)) (intervals e)"
proof (cases "earliest (intervals e)")
  case None
  then show ?thesis by (simp add: fire_next_def)
next
  case (Some i)
  have "map ((\<lambda>i. (callback i, delay_ms i)) \<circ>
      (\<lambda>j. if timer_id j = t then j\<lparr>due_ms := due_ms j + delay_ms j\<rparr> else j)) xs =
      map (\<lambda>i. (callback i, delay_ms i)) xs" for t xs
    by (induction xs) auto
  then show ?thesis
    by (simp add: fire_next_intervals [OF Some])
qed

lemma home_mounted_fields:
  "cleanup home_mounted = None \<and> rendered home_mounted = Some home_defaults \<and>
   sessions home_mounted = [] \<and> intervals home_mounted = [] \<and> clock_ms home_mounted = 0 \<and>
   next_timer home_mounted = 1 \<and> trace home_mounted = []"
  by (simp add: home_mounted_def run_def render_def session_deps_changed_def
      params_deps_changed_def run_cleanup_def run_session_effect_def effect_session_def
      effect_params_def report_def initial_def home_defaults_def)

subsection \<open>A session that was torn down stays silent\<close>

lemma outlivedI: "timers_owned x \<Longrightarrow> k < length (sessions x) \<Longrightarrow> cleanup x \<noteq> Some k \<Longrightarrow> outlived k x"
  apply (simp add: outlived_def)
  done

lemma outlived_render:
  assumes "timers_owned (render p e)" and "k < length (sessions e)" and "cleanup e \<noteq> Some k"
  shows "outlived k (render p e) \<and> triggers_of k (render p e) = triggers_of k e"
proof -
  have a: "k < length (sessions (render p e))"
    using assms(2) by (simp add: render_fields)
  have b: "cleanup (render p e) \<noteq> Some k"
    using assms(2,3) by (auto simp add: render_fields)
  have c: "triggers_of k (render p e) = triggers_of k e"
    by (cases "session_deps_changed (rendered e) p"; cases "cleanup e")
      (simp_all add: triggers_of_def render_fields)
  from assms(1) a b have "outlived k (render p e)"
    by (rule outlivedI)
  with c show ?thesis by simp
qed

lemma outlived_unmount:
  assumes "timers_owned (unmount e)" and "k < length (sessions e)"
  shows "outlived k (unmount e) \<and> triggers_of k (unmount e) = triggers_of k e"
proof -
  have a: "k < length (sessions (unmount e))"
    using assms(2) by (simp add: unmount_def run_cleanup_trace)
  have b: "cleanup (unmount e) \<noteq> Some k"
    by (simp add: unmount_def run_cleanup_def split: option.splits)
  have c: "triggers_of k (unmount e) = triggers_of k e"
    by (cases "cleanup e") (simp_all add: triggers_of_def unmount_def run_cleanup_trace)
  from assms(1) a b have "outlived k (unmount e)"
    by (rule outlivedI)
  with c show ?thesis by simp
qed

lemma outlived_step:
  assumes "outlived k e"
  shows "outlived k (step ev e) \<and> triggers_of k (step ev e) = triggers_of k e"
proof -
  from assms have own: "timers_owned e" and k: "k < length (sessions e)" and c: "cleanup e \<noteq> Some k"
    by (simp_all add: outlived_def)
  have own': "timers_owned (step ev e)"
    using own by (rule timers_owned_step)
  show ?thesis
  proof (cases ev)
    case (Render p)
    then show ?thesis
      using outlived_render [of p e k] own' k c by simp
  next
    case Unmount
    then show ?thesis
      using outlived_unmount [of e k] own' k by simp
  next
    case TimerFires
    have "triggers_of k (fire_next e) = triggers_of k e"
      using fire_next_trace [OF own c] by (simp add: triggers_of_def)
    moreover have "outlived k (fire_next e)"
      using own' k c TimerFires by (intro outlivedI) (simp_all add: fire_next_control)
    ultimately show ?thesis
      using TimerFires by simp
  next
    case (TimePasses d)
    have "triggers_of k (time_passes d e) = triggers_of k e"
      using time_passes_control [of e d] by (simp add: triggers_of_def)
    moreover have "outlived k (time_passes d e)"
      using own' k c TimePasses time_passes_control [of e d]
      by (intro outlivedI) (simp_all add: same_control_def)
    ultimately show ?thesis
      using TimePasses by simp
  qed
qed

lemma outlived_run:
  "outlived k e \<Longrightarrow> outlived k (run evs e) \<and> triggers_of k (run evs e) = triggers_of k e"
proof (induction evs rule: rev_induct)
  case Nil
  then show ?case by (simp add: run_def)
next
  case (snoc ev evs)
  then show ?case
    using outlived_step [of k "run evs e" ev] by (simp add: run_snoc)
qed

lemma stop_step:
  assumes "timers_owned e" and "cleanup e = Some k"
    and "ev = Unmount \<or> (\<exists>p. ev = Render p \<and> \<not> isRunning p)"
  shows "\<exists>r. step ev e = (teardown k e)\<lparr>cleanup := None, rendered := r\<rparr>"
proof -
  from assms(3) show ?thesis
  proof
    assume "ev = Unmount"
    with assms(2) show ?thesis
      by (intro exI [of _ None]) (simp add: unmount_def run_cleanup_def)
  next
    assume "\<exists>p. ev = Render p \<and> \<not> isRunning p"
    then obtain p where p: "ev = Render p" "\<not> isRunning p"
      by blast
    obtain q where q: "rendered e = Some q" "isRunning q"
      using running_session(4) [OF assms(1,2)] by blast
    with p have ch: "session_deps_changed (rendered e) p"
      by (simp add: session_deps_changed_def)
    have e1: "run_cleanup e = (teardown k e)\<lparr>cleanup := None\<rparr>"
      using assms(2) by (simp add: run_cleanup_def)
    have n: "nodesRef ((teardown k e)\<lparr>cleanup := None\<rparr>) = None"
      by (simp add: teardown_fields)
    have "report (effect_params p ((teardown k e)\<lparr>cleanup := None\<rparr>)) =
        (teardown k e)\<lparr>cleanup := None\<rparr>"
      using n by (simp add: effect_params_def report_def)
    with p ch e1 show ?thesis
      by (intro exI [of _ "Some p"])
        (simp add: render_def Let_def run_session_effect_stopped teardown_fields)
  qed
qed

text \<open>
  Claim C1. In every state the component can reach, if a session \<open>k\<close> is running and it is
  stopped (a render with \<^verbatim>\<open>isRunning\<close> false, or an unmount), then: the three active timers
  are the pulse, texture and pluck timers of \<open>k\<close>; the teardown clears all three, then
  stops the drone, then closes the context, so that every \<^verbatim>\<open>clearInterval\<close> comes before
  the release of the context; no timer is active afterwards; and whatever happens later
  (timers firing, time passing, renders, a new session), not one more trigger is made
  into a layer of session \<open>k\<close>.
\<close>

theorem teardown_cancels_timers:
  assumes "e = run evs (initial rate ds)"
    and "cleanup e = Some k"
    and "ev = Unmount \<or> (\<exists>p. ev = Render p \<and> \<not> isRunning p)"
  shows "\<exists>a b c. timersRef e = [a, b, c] \<and>
           map timer_id (intervals e) = [a, b, c] \<and>
           map callback (intervals e) = [PulseTimer k, NoiseTimer k, PluckTimer k] \<and>
           intervals (step ev e) = [] \<and>
           trace (step ev e) = trace e @
             [ClearInterval a, ClearInterval b, ClearInterval c, DroneStop k, CtxClose k] \<and>
           closed (s_ctx (sessions (step ev e) ! k)) \<and>
           (\<forall>evs'. triggers_of k (run evs' (step ev e)) = triggers_of k e)"
proof -
  have own: "timers_owned e"
    using assms(1) timers_owned_run [OF timers_owned_initial] by simp
  obtain a b c where abc: "timersRef e = [a, b, c]" "map timer_id (intervals e) = [a, b, c]"
    using running_session(2) [OF own assms(2)] by auto
  have cbs: "map callback (intervals e) = [PulseTimer k, NoiseTimer k, PluckTimer k]"
    using running_session(3) [OF own assms(2)] .
  have k: "k < length (sessions e)"
    using running_session(1) [OF own assms(2)] by simp
  obtain r where st: "step ev e = (teardown k e)\<lparr>cleanup := None, rendered := r\<rparr>"
    using stop_step [OF own assms(2,3)] by blast
  have none: "filter (\<lambda>i. timer_id i \<notin> set (map timer_id (intervals e))) (intervals e) = []"
    by (simp add: filter_empty_conv)
  have iv: "intervals (step ev e) = []"
    using none abc by (simp add: st teardown_fields)
  have tr: "trace (step ev e) = trace e @
      [ClearInterval a, ClearInterval b, ClearInterval c, DroneStop k, CtxClose k]"
    using abc by (simp add: st teardown_fields)
  have cl: "closed (s_ctx (sessions (step ev e) ! k))"
    using teardown_session [OF k] by (auto simp: st)
  have "timers_owned (step ev e)"
    using own by (rule timers_owned_step)
  moreover have "k < length (sessions (step ev e))"
    using k by (simp add: st teardown_fields)
  moreover have "cleanup (step ev e) \<noteq> Some k"
    by (simp add: st)
  ultimately have out: "outlived k (step ev e)"
    by (rule outlivedI)
  have "triggers_of k (step ev e) = triggers_of k e"
    by (simp add: triggers_of_def tr)
  with out have "\<forall>evs'. triggers_of k (run evs' (step ev e)) = triggers_of k e"
    using outlived_run by simp
  with abc cbs iv tr cl show ?thesis
    by simp
qed

text \<open>
  The session started from the page's defaults, stopped, and then: a timer slot, five
  seconds, a new start, a timer firing.
\<close>

theorem teardown_cancels_timers_witness:
  "cleanup home_session = Some 0 \<and>
   intervals (step (Render home_defaults) home_session) = [] \<and>
   closed (s_ctx (sessions (step (Render home_defaults) home_session) ! 0)) \<and>
   triggers_of 0
     (run [TimerFires, TimePasses 5000, Render (home_defaults\<lparr>isRunning := True\<rparr>), TimerFires]
        (step (Render home_defaults) home_session)) =
     triggers_of 0 home_session"
proof -
  have h: "home_session = render (home_defaults\<lparr>isRunning := True\<rparr>) home_mounted"
    by (simp add: home_session_def home_mounted_def run_def)
  have c: "cleanup home_session = Some 0"
    using home_mounted_fields
    by (simp add: h render_fields session_deps_changed_def home_defaults_def)
  have s: "Render home_defaults = Unmount \<or>
      (\<exists>p. Render home_defaults = Render p \<and> \<not> isRunning p)"
    by (simp add: home_defaults_def)
  show ?thesis
    using teardown_cancels_timers [OF home_session_def c s] c by auto
qed

subsection \<open>The pulse interval\<close>

text \<open>
  Claim C6 says that after a change of the pulse parameter the new interval takes effect
  once the pending interval has elapsed. It never does in that session: with the session
  started at pulse 0 (1600 ms), the parameter set to 100 (420 ms) after 100 ms and the
  pulse timer fired at 1600 ms, the timer still has the delay 1600 and is due next at
  3200 ms, not at 2020 ms.
\<close>

theorem pulse_change_keeps_interval:
  "map (\<lambda>i. (callback i, delay_ms i, due_ms i))
     (intervals
       (run [Render home_defaults, Render (home_defaults\<lparr>isRunning := True, pulse := 0\<rparr>),
             TimePasses 100, Render (home_defaults\<lparr>isRunning := True, pulse := 100\<rparr>),
             TimerFires]
         (initial 44100 (\<lambda>n. 0)))) =
   [(PulseTimer 0, 1600, 3200), (NoiseTimer 0, 2170, 2170), (PluckTimer 0, 2000, 2000)] \<and>
   scale 100 0 100 1600 420 = 420"
proof -
  define pA where "pA = home_defaults\<lparr>isRunning := True, pulse := 0\<rparr>"
  define pB where "pB = home_defaults\<lparr>isRunning := True, pulse := 100\<rparr>"
  define e2 where "e2 = render pA home_mounted"
  define e3 where "e3 = time_passes 100 e2"
  define e4 where "e4 = render pB e3"
  have s: "scale 0 0 100 1600 420 = 1600" "scale 70 0 100 4200 1300 = 2170"
    "scale 100 0 100 1600 420 = 420"
    by (simp_all add: scale_def clamp_def js_or_def)
  have m: "cleanup home_mounted = None" "rendered home_mounted = Some home_defaults"
    "\<not> isRunning home_defaults" "isRunning pA" "tension home_defaults = tension pA"
    "reverb home_defaults = reverb pA" "volume home_defaults = volume pA"
    using home_mounted_fields by (simp_all add: home_defaults_def pA_def)
  obtain e' where e': "start_session pA home_mounted = Normal (Some (length (sessions home_mounted))) e'"
      "e2 = e'\<lparr>cleanup := Some (length (sessions home_mounted)), rendered := Some pA\<rparr>"
    using render_start_only [OF m] by (auto simp: e2_def)
  have i2: "intervals e2 =
      [\<lparr>timer_id = 1, delay_ms = 1600, due_ms = 1600, callback = PulseTimer 0\<rparr>,
       \<lparr>timer_id = 2, delay_ms = 2170, due_ms = 2170, callback = NoiseTimer 0\<rparr>,
       \<lparr>timer_id = 3, delay_ms = 2000, due_ms = 2000, callback = PluckTimer 0\<rparr>]"
    using start_session_fields [of pA home_mounted] e' home_mounted_fields s
    by (auto simp: pA_def home_defaults_def)
  have r2: "rendered e2 = Some pA"
    by (simp add: e2_def rendered_render)
  have c23: "same_control e2 e3"
    using time_passes_control by (simp add: e3_def)
  then have i3: "intervals e3 = intervals e2" and r3: "rendered e3 = Some pA"
    using r2 by (simp_all add: same_control_def)
  have i4: "intervals e4 = intervals e3"
    using render_running [OF r3, of pB] by (simp add: e4_def pA_def pB_def)
  have first: "earliest (intervals e4) =
      Some \<lparr>timer_id = 1, delay_ms = 1600, due_ms = 1600, callback = PulseTimer 0\<rparr>"
    by (simp add: i4 i3 i2)
  have "map (\<lambda>i. (callback i, delay_ms i, due_ms i)) (intervals (fire_next e4)) =
      [(PulseTimer 0, 1600, 3200), (NoiseTimer 0, 2170, 2170), (PluckTimer 0, 2000, 2000)]"
    by (simp add: fire_next_intervals [OF first] i4 i3 i2)
  moreover have "run [Render home_defaults, Render (home_defaults\<lparr>isRunning := True, pulse := 0\<rparr>),
             TimePasses 100, Render (home_defaults\<lparr>isRunning := True, pulse := 100\<rparr>),
             TimerFires] (initial 44100 (\<lambda>n. 0)) = fire_next e4"
    by (simp add: run_def e4_def e3_def e2_def pA_def pB_def home_mounted_def)
  ultimately show ?thesis
    using s by simp
qed

text \<open>
  Claim C6, amended. When the pulse parameter is changed during a running session, the
  pending pulse timer is not rescheduled and its interval does not change: the render
  leaves the timers as they are, and through every run of that session (timers firing,
  time passing, renders that keep it running) the pulse timer keeps the interval
  \<open>scale pulse 0 100 1600 420\<close> of the pulse value the session was started with; the texture
  and pluck timers keep theirs. A new pulse value is used when a session is next started.
\<close>

theorem pulse_interval_fixed_at_start:
  assumes "e0 = run evs0 (initial rate ds)"
    and "cleanup e0 = None"
    and "isRunning p0"
    and "list_all keeps_running evs"
    and "isRunning p"
  shows "map (\<lambda>i. (callback i, delay_ms i)) (intervals (run evs (render p0 e0))) =
           [(PulseTimer (length (sessions e0)), scale (pulse p0) 0 100 1600 420),
            (NoiseTimer (length (sessions e0)), scale (tension p0) 0 100 4200 1300),
            (PluckTimer (length (sessions e0)), 2000)] \<and>
         intervals (render p (run evs (render p0 e0))) = intervals (run evs (render p0 e0))"
proof -
  define k where "k = length (sessions e0)"
  define L where "L = [(PulseTimer k, scale (pulse p0) 0 100 1600 420),
            (NoiseTimer k, scale (tension p0) 0 100 4200 1300), (PluckTimer k, 2000 :: real)]"
  have own0: "timers_owned e0"
    using assms(1) timers_owned_run [OF timers_owned_initial] by simp
  with assms(2) have iv0: "intervals e0 = []"
    and r0: "case rendered e0 of None \<Rightarrow> True | Some q \<Rightarrow> \<not> isRunning q"
    by (simp_all add: timers_owned_def)
  from r0 assms(3) have ch: "session_deps_changed (rendered e0) p0"
    by (auto simp: session_deps_changed_def split: option.splits)
  have base: "timers_owned (render p0 e0) \<and> cleanup (render p0 e0) = Some k \<and>
      map (\<lambda>i. (callback i, delay_ms i)) (intervals (render p0 e0)) = L"
  proof -
    have "map (\<lambda>i. (callback i, delay_ms i, due_ms i)) (intervals (render p0 e0)) =
           [(PulseTimer k, scale (pulse p0) 0 100 1600 420,
               clock_ms e0 + scale (pulse p0) 0 100 1600 420),
            (NoiseTimer k, scale (tension p0) 0 100 4200 1300,
               clock_ms e0 + scale (tension p0) 0 100 4200 1300),
            (PluckTimer k, 2000, clock_ms e0 + 2000)]"
      using render_start [OF assms(2) ch assms(3)] iv0 by (simp add: k_def)
    then have "map ((\<lambda>(c, d, t). (c, d)) \<circ> (\<lambda>i. (callback i, delay_ms i, due_ms i)))
        (intervals (render p0 e0)) = L"
      unfolding map_map [symmetric] by (simp add: L_def)
    then have "map (\<lambda>i. (callback i, delay_ms i)) (intervals (render p0 e0)) = L"
      by (simp add: comp_def)
    then show ?thesis
      using render_start [OF assms(2) ch assms(3)] timers_owned_render [OF own0, of p0]
      by (simp add: k_def)
  qed
  have inv: "timers_owned (run evs (render p0 e0)) \<and> cleanup (run evs (render p0 e0)) = Some k \<and>
      map (\<lambda>i. (callback i, delay_ms i)) (intervals (run evs (render p0 e0))) = L"
    using assms(4)
  proof (induction evs rule: rev_induct)
    case Nil
    with base show ?case by (simp add: run_def)
  next
    case (snoc ev evs)
    define e where "e = run evs (render p0 e0)"
    from snoc have own: "timers_owned e" and c: "cleanup e = Some k"
      and l: "map (\<lambda>i. (callback i, delay_ms i)) (intervals e) = L"
      and keep: "keeps_running ev"
      by (simp_all add: e_def)
    have own': "timers_owned (step ev e)"
      using own by (rule timers_owned_step)
    have "cleanup (step ev e) = Some k \<and>
        map (\<lambda>i. (callback i, delay_ms i)) (intervals (step ev e)) = L"
    proof (cases ev)
      case (Render q)
      obtain q0 where "rendered e = Some q0" "isRunning q0"
        using running_session(4) [OF own c] by blast
      with keep Render show ?thesis
        using render_running [of e q0 q] c l by simp
    next
      case Unmount
      with keep show ?thesis by simp
    next
      case TimerFires
      with c l show ?thesis
        by (simp add: fire_next_delays fire_next_control)
    next
      case (TimePasses d)
      with c l time_passes_control [of e d] show ?thesis
        by (simp add: same_control_def)
    qed
    with own' show ?case
      by (simp add: run_snoc e_def)
  qed
  then obtain q0 where "rendered (run evs (render p0 e0)) = Some q0" "isRunning q0"
    using running_session(4) by blast
  with assms(5) have "intervals (render p (run evs (render p0 e0))) = intervals (run evs (render p0 e0))"
    using render_running [of "run evs (render p0 e0)" q0 p] by simp
  with inv show ?thesis
    by (simp add: L_def k_def)
qed

text \<open>
  The page's session: after 100 ms the pulse is set to 100 and a timer fires; the pulse
  timer keeps the 892 ms of the pulse value 60.
\<close>

theorem pulse_interval_fixed_at_start_witness:
  "cleanup home_mounted = None \<and> isRunning (home_defaults\<lparr>isRunning := True\<rparr>) \<and>
   list_all keeps_running
     [TimePasses 100, Render (home_defaults\<lparr>isRunning := True, pulse := 100\<rparr>), TimerFires] \<and>
   map (\<lambda>i. (callback i, delay_ms i))
     (intervals
       (run [TimePasses 100, Render (home_defaults\<lparr>isRunning := True, pulse := 100\<rparr>), TimerFires]
         (render (home_defaults\<lparr>isRunning := True\<rparr>) home_mounted))) =
   [(PulseTimer 0, 892), (NoiseTimer 0, 2170), (PluckTimer 0, 2000)] \<and>
   scale 100 0 100 1600 420 = 420"
proof -
  have c: "cleanup home_mounted = None"
    using home_mounted_fields by simp
  have r: "isRunning (home_defaults\<lparr>isRunning := True\<rparr>)"
    by simp
  have k: "list_all keeps_running
     [TimePasses 100, Render (home_defaults\<lparr>isRunning := True, pulse := 100\<rparr>), TimerFires]"
    by simp
  have r2: "isRunning (home_defaults\<lparr>isRunning := True, pulse := 100\<rparr>)"
    by simp
  have s: "scale 60 0 100 1600 420 = 892" "scale 70 0 100 4200 1300 = 2170"
    "scale 100 0 100 1600 420 = 420"
    by (simp_all add: scale_def clamp_def js_or_def)
  show ?thesis
    using pulse_interval_fixed_at_start [OF home_mounted_def c r k r2] c k s home_mounted_fields
    by (simp add: home_defaults_def)
qed

subsection \<open>The drone at the start of a session\<close>

lemma drone_level_at_start:
  assumes "cleanup e = None" and "rendered e = Some q" and "\<not> isRunning q"
    and "p = q\<lparr>isRunning := True\<rparr>"
  shows "running (s_drone (sessions (render p e) ! length (sessions e))) \<and>
     param_of (s_ctx (sessions (render p e) ! length (sessions e)))
       (d_gain (s_drone (sessions (render p e) ! length (sessions e)))) ''gain'' =
         Some \<lparr>pvalue = 0.14, events = []\<rparr> \<and>
     param_of (s_ctx (sessions (render p e) ! length (sessions e)))
       (d_lpf (s_drone (sessions (render p e) ! length (sessions e)))) ''frequency'' =
         Some \<lparr>pvalue = 400, events = []\<rparr>"
proof -
  from assms obtain e' where "start_session p e = Normal (Some (length (sessions e))) e'"
      "render p e = e'\<lparr>cleanup := Some (length (sessions e)), rendered := Some p\<rparr>"
    using render_start_only [of e q p] by auto
  then show ?thesis
    using start_session_fields [of p e] by auto
qed

lemma no_tension_fits_both:
  "\<not> (scale t 0 100 0.1 0.2 = 0.14 \<and> scale t 0 100 260 1800 = 400)"
proof
  assume a: "scale t 0 100 0.1 0.2 = 0.14 \<and> scale t 0 100 260 1800 = 400"
  then have "0.1 + factor t 0 100 * 0.1 = 0.14" "260 + factor t 0 100 * 1540 = 400"
    by (simp_all add: scale_factor)
  then show False by simp
qed

text \<open>
  A later \<^verbatim>\<open>setTension\<close> schedules the approach to the tension's cutoff and gain, with the
  time constant 0.5 s.
\<close>

lemma setTension_targets:
  assumes "param_of c (d_lpf d) ''frequency'' = Some f"
    and "param_of c (d_gain d) ''gain'' = Some g"
  shows "param_of (setTension d t c) (d_lpf d) ''frequency'' =
           Some (schedule (SetTargetAtTime (scale t 0 100 260 1800) (currentTime c) 0.5) f) \<and>
         param_of (setTension d t c) (d_gain d) ''gain'' =
           Some (schedule (SetTargetAtTime (scale t 0 100 0.1 0.2) (currentTime c) 0.5) g)"
proof -
  have "currentTime (map_param i name h x) = currentTime x" for i name h x
    by (simp add: map_param_def map_node_def)
  with assms show ?thesis
    by (simp add: setTension_def automate_def param_of_map_param Let_def)
qed

text \<open>
  Claim C3 says that the drone's gain and base cutoff follow the tension from the start of
  the session. The call \<^verbatim>\<open>createDrone(ctx, reverbBus.input, dryGain, { tension })\<close> passes
  the tension, but \<^verbatim>\<open>createDrone\<close> takes three parameters and sets the constants 0.14 and
  400, and the second effect does not run when only \<^verbatim>\<open>isRunning\<close> changes. On the page,
  with tension 70, the session starts with the drone running at gain 0.14 and cutoff
  400 Hz and nothing scheduled, where the claim has 0.17 and 1338 Hz.
\<close>

theorem drone_ignores_tension_at_start:
  "cleanup home_session = Some 0 \<and>
   tension (home_defaults\<lparr>isRunning := True\<rparr>) = 70 \<and>
   running (s_drone (sessions home_session ! 0)) \<and>
   param_of (s_ctx (sessions home_session ! 0)) (d_gain (s_drone (sessions home_session ! 0))) ''gain'' =
     Some \<lparr>pvalue = 0.14, events = []\<rparr> \<and>
   param_of (s_ctx (sessions home_session ! 0)) (d_lpf (s_drone (sessions home_session ! 0))) ''frequency'' =
     Some \<lparr>pvalue = 400, events = []\<rparr> \<and>
   scale 70 0 100 0.1 0.2 = 0.17 \<and> scale 70 0 100 260 1800 = 1338"
proof -
  have m: "cleanup home_mounted = None" "rendered home_mounted = Some home_defaults"
    "length (sessions home_mounted) = 0" "\<not> isRunning home_defaults"
    using home_mounted_fields by (simp_all add: home_defaults_def)
  have h: "home_session = render (home_defaults\<lparr>isRunning := True\<rparr>) home_mounted"
    by (simp add: home_session_def home_mounted_def run_def)
  have c: "cleanup home_session = Some 0"
    using m by (simp add: h render_fields session_deps_changed_def)
  have d: "running (s_drone (sessions home_session ! 0)) \<and>
     param_of (s_ctx (sessions home_session ! 0))
       (d_gain (s_drone (sessions home_session ! 0))) ''gain'' =
         Some \<lparr>pvalue = 0.14, events = []\<rparr> \<and>
     param_of (s_ctx (sessions home_session ! 0))
       (d_lpf (s_drone (sessions home_session ! 0))) ''frequency'' =
         Some \<lparr>pvalue = 400, events = []\<rparr>"
    using drone_level_at_start [OF m(1,2,4) refl] m(3) by (simp add: h)
  have s: "scale 70 0 100 0.1 0.2 = 0.17" "scale 70 0 100 260 1800 = 1338"
    by (simp_all add: scale_def clamp_def js_or_def)
  have t: "tension (home_defaults\<lparr>isRunning := True\<rparr>) = 70"
    by (simp add: home_defaults_def)
  from c d s t show ?thesis
    by blast
qed

text \<open>The drone of a new layer, and the drone of the page's session torn down.\<close>

theorem drone_start_stop_idempotent_witness:
  "\<not> running (fst (createDrone (new_ctx 44100) 0 0)) \<and>
   drone_stop (createDrone (new_ctx 44100) 0 0) = Normal () (createDrone (new_ctx 44100) 0 0) \<and>
   running (fst (swallow (drone_start (createDrone (new_ctx 44100) 0 0)))) \<and>
   drone_start (swallow (drone_start (createDrone (new_ctx 44100) 0 0))) =
     Normal () (swallow (drone_start (createDrone (new_ctx 44100) 0 0))) \<and>
   0 < length (sessions home_session) \<and>
   closed (s_ctx (sessions (teardown 0 home_session) ! 0)) \<and>
   drone_stop (s_drone (sessions (teardown 0 home_session) ! 0),
               s_ctx (sessions (teardown 0 home_session) ! 0)) =
     Normal () (s_drone (sessions (teardown 0 home_session) ! 0),
                s_ctx (sessions (teardown 0 home_session) ! 0))"
proof -
  define D0 where "D0 = createDrone (new_ctx 44100) 0 0"
  define D1 where "D1 = swallow (drone_start D0)"
  have r0: "\<not> running (fst D0)"
    by (simp add: D0_def createDrone_def new_ctx_def audio_defs)
  have r1: "running (fst D1)"
    using drone_start_cases [of "fst D0" "snd D0"] by (auto simp: D1_def)
  have h: "home_session = render (home_defaults\<lparr>isRunning := True\<rparr>) home_mounted"
    by (simp add: home_session_def home_mounted_def run_def)
  have l: "0 < length (sessions home_session)"
    using home_mounted_fields
    by (simp add: h render_fields session_deps_changed_def home_defaults_def)
  show ?thesis
    using drone_start_stop_idempotent [of "fst D0" "snd D0" 0 home_session]
      drone_start_stop_idempotent [of "fst D1" "snd D1" 0 home_session] r0 r1 l
    by (simp add: D0_def [symmetric] D1_def [symmetric])
qed

end
